theory Spec2Isabelle
  imports Main
begin

unbundle bit_operations_syntax

section \<open>Python values and strings\<close>

text \<open>
  A layout is loaded from JSON, so a field of a window record is typed \<open>Any\<close> in the
  source. The fields \<open>executable\<close> and \<open>title\<close> are used with string methods; a value
  of another JSON type there makes the method call raise \<open>AttributeError\<close>.
  Lists and objects behave like the other non-strings and are left out.
\<close>

datatype jval = JNull | JBool bool | JNum int | JStr string

datatype py_exn = AttributeError

text \<open>Python truthiness (\<open>if v:\<close>, \<open>a or b\<close>).\<close>

fun truthy :: "jval \<Rightarrow> bool" where
  "truthy JNull = False"
| "truthy (JBool b) = b"
| "truthy (JNum n) = (n \<noteq> 0)"
| "truthy (JStr s) = (s \<noteq> [])"

text \<open>
  \<open>str.lower()\<close> on the characters a \<open>string\<close> of HOL has (bytes): the letters A to Z
  get bit 5 set.
\<close>

definition lower_char :: "char \<Rightarrow> char" where
  "lower_char c =
     (if 65 \<le> (of_char c :: nat) \<and> (of_char c :: nat) \<le> 90
      then Char (digit0 c) (digit1 c) (digit2 c) (digit3 c) (digit4 c) True (digit6 c) (digit7 c)
      else c)"

definition lower :: "string \<Rightarrow> string" where
  "lower s = map lower_char s"

text \<open>\<open>s in t\<close> on strings: \<open>s\<close> occurs in \<open>t\<close> as a contiguous substring.\<close>

fun py_in :: "string \<Rightarrow> string \<Rightarrow> bool" where
  "py_in s [] = (s = [])"
| "py_in s (c # cs) = (take (length s) (c # cs) = s \<or> py_in s cs)"

text \<open>\<open>path.split('\\')[-1]\<close>: what follows the last backslash (the whole string if none).\<close>

definition last_component :: "string \<Rightarrow> string" where
  "last_component s = rev (takeWhile (\<lambda>c. c \<noteq> CHR 0x5C) (rev s))"

definition exe_name_of :: "string \<Rightarrow> string" where
  "exe_name_of executable = lower (last_component executable)"

section \<open>Geometry\<close>

text \<open>
  A rectangle as the Win32 API returns it: \<open>(left, top, right, bottom)\<close>.
  A saved record keeps \<open>(x, y, width, height)\<close>, and \<open>SetWindowPos\<close> takes the same.
\<close>

type_synonym rect = "int \<times> int \<times> int \<times> int"

definition rect_of_xywh :: "int \<times> int \<times> int \<times> int \<Rightarrow> rect" where
  "rect_of_xywh p = (case p of (x, y, w, h) \<Rightarrow> (x, y, x + w, y + h))"

section \<open>Snap zones\<close>

text \<open>
  The body of \<open>detect_snap_type\<close> once the work area of the window's monitor is known:
  \<open>rect\<close> is the window rectangle, \<open>work\<close> the work area, both as
  \<open>(left, top, right, bottom)\<close>.
\<close>

definition classify :: "rect \<Rightarrow> rect \<Rightarrow> string option" where
  "classify rect work =
     (case work of (wx1, wy1, wx2, wy2) \<Rightarrow>
      case rect of (mx1, my1, mx2, my2) \<Rightarrow>
        let work_w = wx2 - wx1;
            work_h = wy2 - wy1;
            win_w = mx2 - mx1;
            win_h = my2 - my1;
            tol = 24;
            left = (\<bar>mx1 - wx1\<bar> \<le> tol);
            right = (\<bar>mx2 - wx2\<bar> \<le> tol);
            top = (\<bar>my1 - wy1\<bar> \<le> tol);
            bottom = (\<bar>my2 - wy2\<bar> \<le> tol);
            half_w = (\<bar>win_w - (work_w div 2)\<bar> \<le> tol);
            half_h = (\<bar>win_h - (work_h div 2)\<bar> \<le> tol);
            full_h = (\<bar>win_h - work_h\<bar> \<le> tol);
            full_w = (\<bar>win_w - work_w\<bar> \<le> tol)
        in if left \<and> full_h \<and> half_w then Some ''left''
           else if right \<and> full_h \<and> half_w then Some ''right''
           else if top \<and> full_w \<and> half_h then Some ''top''
           else if bottom \<and> full_w \<and> half_h then Some ''bottom''
           else if left \<and> top \<and> half_w \<and> half_h then Some ''top_left''
           else if right \<and> top \<and> half_w \<and> half_h then Some ''top_right''
           else if left \<and> bottom \<and> half_w \<and> half_h then Some ''bottom_left''
           else if right \<and> bottom \<and> half_w \<and> half_h then Some ''bottom_right''
           else None)"

text \<open>
  The dictionary \<open>layouts\<close> of \<open>apply_snap_layout\<close>: for each zone name the
  \<open>(x, y, width, height)\<close> handed to \<open>SetWindowPos\<close>.
\<close>

definition layouts :: "rect \<Rightarrow> (string \<times> int \<times> int \<times> int \<times> int) list" where
  "layouts work =
     (case work of (wx1, wy1, wx2, wy2) \<Rightarrow>
        let work_w = wx2 - wx1;
            work_h = wy2 - wy1;
            half_w = max 1 (work_w div 2);
            half_h = max 1 (work_h div 2)
        in [(''left'', (wx1, wy1, half_w, work_h)),
            (''right'', (wx1 + half_w, wy1, work_w - half_w, work_h)),
            (''top'', (wx1, wy1, work_w, half_h)),
            (''bottom'', (wx1, wy1 + half_h, work_w, work_h - half_h)),
            (''top_left'', (wx1, wy1, half_w, half_h)),
            (''top_right'', (wx1 + half_w, wy1, work_w - half_w, half_h)),
            (''bottom_left'', (wx1, wy1 + half_h, half_w, work_h - half_h)),
            (''bottom_right'', (wx1 + half_w, wy1 + half_h, work_w - half_w, work_h - half_h))])"

definition zone_rect :: "string \<Rightarrow> rect \<Rightarrow> (int \<times> int \<times> int \<times> int) option" where
  "zone_rect snap_type work = map_of (layouts work) snap_type"

definition snap_zones :: "string list" where
  "snap_zones = [''left'', ''right'', ''top'', ''bottom'',
                 ''top_left'', ''top_right'', ''bottom_left'', ''bottom_right'']"

section \<open>The desktop the program talks to\<close>

text \<open>
  The Win32 and psutil calls are outside the repository. The model keeps what the
  source reads of them and the effect of the calls it makes:
  \<^item> a window has the values the queries return for its handle; \<open>None\<close> is a query
    that raises for this window (psutil on a process that is gone or protected);
  \<^item> \<open>EnumWindows\<close> walks \<open>windows\<close> in list order; a query or a call on a handle
    that is not in the list raises;
  \<^item> \<open>w_rect\<close> is changed by \<open>SetWindowPos\<close> only, \<open>w_show_cmd\<close> by \<open>ShowWindow\<close> only;
  \<^item> \<open>programs\<close> says what starting an executable does: the process id of
    \<open>Popen\<close> and the windows the process opens, each after a delay in milliseconds;
    an executable not in the table makes \<open>Popen\<close> raise;
  \<^item> \<open>time.sleep\<close> advances \<open>clock\<close>; a pending window whose time has come joins
    \<open>windows\<close>;
  \<^item> \<open>calls\<close> is the trace of the calls that act on the desktop, oldest first.
\<close>

datatype os_call =
    EnumWindows
  | Popen string
  | Sleep nat
  | ShowWindow nat int
  | SetWindowPos nat int int int int int
  | SetForegroundWindow nat
  | SendKeys string

record window =
  w_hwnd :: nat
  w_visible :: bool
  w_title :: string
  w_proc_name :: "string option"
  w_proc_path :: "string option"
  w_style :: int
  w_exstyle :: int
  w_show_cmd :: int
  w_rect :: rect
  w_monitor :: nat
  w_tabs :: "(string \<times> string) list"

record monitor =
  m_bounds :: rect
  m_work :: "rect option"

record launch_outcome =
  lo_pid :: nat
  lo_windows :: "(nat \<times> window) list"

record world =
  windows :: "window list"
  monitors :: "monitor list"
  programs :: "(string \<times> launch_outcome) list"
  pending :: "(nat \<times> window) list"
  clock :: nat
  foreground :: "nat option"
  calls :: "os_call list"

text \<open>The constants of \<open>win32con\<close> the source names.\<close>

definition SW_SHOWNORMAL :: int where "SW_SHOWNORMAL = 1"
definition SW_SHOWMINIMIZED :: int where "SW_SHOWMINIMIZED = 2"
definition SW_SHOWMAXIMIZED :: int where "SW_SHOWMAXIMIZED = 3"
definition SW_MAXIMIZE :: int where "SW_MAXIMIZE = 3"
definition SW_MINIMIZE :: int where "SW_MINIMIZE = 6"
definition SW_RESTORE :: int where "SW_RESTORE = 9"
definition SWP_NOZORDER :: int where "SWP_NOZORDER = 4"
definition SWP_NOACTIVATE :: int where "SWP_NOACTIVATE = 16"
definition WS_CAPTION :: int where "WS_CAPTION = 0xC00000"
definition WS_EX_TOOLWINDOW :: int where "WS_EX_TOOLWINDOW = 0x80"

definition record_call :: "os_call \<Rightarrow> world \<Rightarrow> world" where
  "record_call c w = w\<lparr>calls := calls w @ [c]\<rparr>"

definition lookup_window :: "world \<Rightarrow> nat \<Rightarrow> window option" where
  "lookup_window w h = find (\<lambda>wn. w_hwnd wn = h) (windows w)"

definition update_window :: "nat \<Rightarrow> (window \<Rightarrow> window) \<Rightarrow> world \<Rightarrow> world" where
  "update_window h f w =
     w\<lparr>windows := map (\<lambda>wn. if w_hwnd wn = h then f wn else wn) (windows w)\<rparr>"

text \<open>The calls with an effect: \<open>None\<close> is the call raising, the world then unchanged.\<close>

definition show_state_after :: "int \<Rightarrow> int \<Rightarrow> int" where
  "show_state_after cmd old =
     (if cmd = SW_RESTORE then SW_SHOWNORMAL
      else if cmd = SW_MAXIMIZE then SW_SHOWMAXIMIZED
      else if cmd = SW_MINIMIZE then SW_SHOWMINIMIZED
      else old)"

definition os_ShowWindow :: "nat \<Rightarrow> int \<Rightarrow> world \<Rightarrow> world option" where
  "os_ShowWindow h cmd w =
     (case lookup_window w h of
        None \<Rightarrow> None
      | Some _ \<Rightarrow>
          Some (record_call (ShowWindow h cmd)
                  (update_window h (\<lambda>wn. wn\<lparr>w_show_cmd := show_state_after cmd (w_show_cmd wn)\<rparr>) w)))"

definition os_SetWindowPos :: "nat \<Rightarrow> int \<Rightarrow> int \<Rightarrow> int \<Rightarrow> int \<Rightarrow> int \<Rightarrow> world \<Rightarrow> world option" where
  "os_SetWindowPos h x y cx cy flags w =
     (case lookup_window w h of
        None \<Rightarrow> None
      | Some _ \<Rightarrow>
          Some (record_call (SetWindowPos h x y cx cy flags)
                  (update_window h (\<lambda>wn. wn\<lparr>w_rect := rect_of_xywh (x, y, cx, cy)\<rparr>) w)))"

definition os_SetForegroundWindow :: "nat \<Rightarrow> world \<Rightarrow> world option" where
  "os_SetForegroundWindow h w =
     (case lookup_window w h of
        None \<Rightarrow> None
      | Some _ \<Rightarrow> Some (record_call (SetForegroundWindow h) (w\<lparr>foreground := Some h\<rparr>)))"

definition sleep :: "nat \<Rightarrow> world \<Rightarrow> world" where
  "sleep ms w =
     (let now = clock w + ms;
          due = filter (\<lambda>p. fst p \<le> now) (pending w);
          later = filter (\<lambda>p. \<not> fst p \<le> now) (pending w)
      in record_call (Sleep ms)
           (w\<lparr>clock := now, windows := windows w @ map snd due, pending := later\<rparr>))"

definition os_Popen :: "string \<Rightarrow> world \<Rightarrow> (nat \<times> world) option" where
  "os_Popen executable w =
     (case map_of (programs w) executable of
        None \<Rightarrow> None
      | Some lo \<Rightarrow>
          Some (lo_pid lo,
                record_call (Popen executable)
                  (w\<lparr>pending := pending w @ map (\<lambda>p. (clock w + fst p, snd p)) (lo_windows lo)\<rparr>)))"

section \<open>Finding a live window (window_restore.py)\<close>

text \<open>
  The test the three enumeration callbacks share: the window is visible, has a title,
  psutil can name its process, and that name, lowered, is the target's.
\<close>

definition is_candidate :: "string \<Rightarrow> window \<Rightarrow> bool" where
  "is_candidate target_exe wn =
     (w_visible wn \<and> w_title wn \<noteq> [] \<and>
      (case w_proc_name wn of None \<Rightarrow> False | Some n \<Rightarrow> lower n = target_exe))"

text \<open>
  \<open>if title and title.lower() not in window_title.lower(): return True\<close> inside the
  callback's \<open>try\<close>: a title that is true and not a string raises there, and the window
  is not appended.
\<close>

definition title_accepts :: "jval \<Rightarrow> string \<Rightarrow> bool" where
  "title_accepts title window_title =
     (if truthy title
      then (case title of JStr t \<Rightarrow> py_in (lower t) (lower window_title) | _ \<Rightarrow> False)
      else True)"

definition find_window_by_executable :: "string \<Rightarrow> jval \<Rightarrow> world \<Rightarrow> nat option \<times> world" where
  "find_window_by_executable executable title w =
     (let target_exe = exe_name_of executable;
          found = map w_hwnd
                    (filter (\<lambda>wn. is_candidate target_exe wn \<and> title_accepts title (w_title wn))
                       (windows w))
      in (case found of [] \<Rightarrow> None | h # _ \<Rightarrow> Some h, record_call EnumWindows w))"

definition find_windows_by_executable :: "string \<Rightarrow> world \<Rightarrow> nat list \<times> world" where
  "find_windows_by_executable executable w =
     (let target_exe = exe_name_of executable
      in (map w_hwnd (filter (is_candidate target_exe) (windows w)), record_call EnumWindows w))"

definition area :: "world \<Rightarrow> nat \<Rightarrow> int" where
  "area w hwnd =
     (case lookup_window w hwnd of
        None \<Rightarrow> 0
      | Some wn \<Rightarrow> (case w_rect wn of (l, t, r, b) \<Rightarrow> max 0 ((r - l) * (b - t))))"

text \<open>
  \<open>sorted(hwnds, key=area, reverse=True)[0]\<close>: Python's sort is stable also with
  \<open>reverse=True\<close>, and so is \<open>sort_key\<close> on the negated key.
\<close>

definition largest_first :: "world \<Rightarrow> nat list \<Rightarrow> nat list" where
  "largest_first w hwnds = sort_key (\<lambda>h. - area w h) hwnds"

definition title_contains :: "world \<Rightarrow> string \<Rightarrow> nat \<Rightarrow> bool" where
  "title_contains w desired hwnd =
     (case lookup_window w hwnd of
        None \<Rightarrow> False
      | Some wn \<Rightarrow> py_in desired (lower (w_title wn)))"

definition choose_best_window :: "world \<Rightarrow> nat list \<Rightarrow> jval \<Rightarrow> py_exn + nat option" where
  "choose_best_window w hwnds desired_title =
     (if hwnds = [] then Inr None
      else if truthy desired_title then
        (case desired_title of
           JStr t \<Rightarrow>
             (case find (title_contains w (lower t)) hwnds of
                Some h \<Rightarrow> Inr (Some h)
              | None \<Rightarrow> Inr (Some (hd (largest_first w hwnds))))
         | _ \<Rightarrow> Inl AttributeError)
      else Inr (Some (hd (largest_first w hwnds))))"

text \<open>
  \<open>if hwnd:\<close> on an \<open>Optional[int]\<close>: \<open>None\<close> and \<open>0\<close> are false. \<open>handle_of\<close> gives
  the handle when the value is true.
\<close>

definition handle_of :: "nat option \<Rightarrow> nat option" where
  "handle_of hwnd = (case hwnd of None \<Rightarrow> None | Some h \<Rightarrow> if h = 0 then None else Some h)"

text \<open>
  The expression \<open>restore_window\<close> writes three times:
  \<open>find_window_by_executable(executable, title) or
   _choose_best_window(find_windows_by_executable(executable), title)\<close>.
\<close>

definition find_or_choose :: "string \<Rightarrow> jval \<Rightarrow> world \<Rightarrow> (py_exn + nat option) \<times> world" where
  "find_or_choose executable title w =
     (case find_window_by_executable executable title w of
        (hwnd, w1) \<Rightarrow>
          (case handle_of hwnd of
             Some _ \<Rightarrow> (Inr hwnd, w1)
           | None \<Rightarrow>
               (case find_windows_by_executable executable w1 of
                  (hwnds, w2) \<Rightarrow> (choose_best_window w2 hwnds title, w2))))"

section \<open>Launching and placing (window_restore.py)\<close>

definition RESTORE_BROWSER_TABS :: bool where
  "RESTORE_BROWSER_TABS = False"

definition RESTORE_SESSION_MANAGED_APPS :: bool where
  "RESTORE_SESSION_MANAGED_APPS = True"

definition SESSION_MANAGED_APPS :: "string list" where
  "SESSION_MANAGED_APPS = [''chrome.exe'', ''msedge.exe'', ''firefox.exe'', ''brave.exe'', ''opera.exe'']"

definition launch_program :: "string \<Rightarrow> world \<Rightarrow> nat option \<times> world" where
  "launch_program executable w =
     (case os_Popen executable w of
        None \<Rightarrow> (None, w)
      | Some (pid, w1) \<Rightarrow> (Some pid, sleep 2000 w1))"

definition intersects :: "rect \<Rightarrow> rect \<Rightarrow> bool" where
  "intersects a b =
     (case a of (a0, a1, a2, a3) \<Rightarrow>
      case b of (b0, b1, b2, b3) \<Rightarrow>
        \<not> (a2 \<le> b0 \<or> a0 \<ge> b2 \<or> a3 \<le> b1 \<or> a1 \<ge> b3))"

text \<open>
  The first part of \<open>position_window\<close>: the rectangle that will be applied.
  \<open>work_areas\<close> holds the work area of each monitor whose \<open>GetMonitorInfo\<close> does not
  raise. \<open>None\<close> is the exception of \<open>GetMonitorInfo\<close> on the fallback monitor, which
  the function's outer \<open>except\<close> catches.
\<close>

definition keep_visible :: "monitor list \<Rightarrow> int \<Rightarrow> int \<Rightarrow> int \<Rightarrow> int \<Rightarrow> int \<Rightarrow> (int \<times> int \<times> int \<times> int) option" where
  "keep_visible mons x y width height monitor =
     (let work_areas = List.map_filter m_work mons
      in if work_areas \<noteq> [] then
           (let width1 = max 320 width;
                height1 = max 220 height;
                rect = (x, y, x + width1, y + height1)
            in if \<not> list_ex (intersects rect) work_areas then
                 (let target_idx = (if 0 \<le> monitor \<and> monitor < int (length mons) then nat monitor else 0)
                  in case m_work (mons ! target_idx) of
                       None \<Rightarrow> None
                     | Some (wx1, wy1, wx2, wy2) \<Rightarrow>
                         let max_w = max 320 (wx2 - wx1);
                             max_h = max 220 (wy2 - wy1);
                             width2 = min width1 max_w;
                             height2 = min height1 max_h
                         in Some (wx1 + max 0 (((wx2 - wx1) - width2) div 2),
                                  wy1 + max 0 (((wy2 - wy1) - height2) div 2),
                                  width2, height2))
               else Some (x, y, width1, height1))
         else Some (x, y, width, height))"

definition position_window :: "nat \<Rightarrow> int \<Rightarrow> int \<Rightarrow> int \<Rightarrow> int \<Rightarrow> string \<Rightarrow> int \<Rightarrow> bool \<Rightarrow> world \<Rightarrow> world" where
  "position_window hwnd x y width height state monitor activate w =
     (case keep_visible (monitors w) x y width height monitor of
        None \<Rightarrow> w
      | Some (x1, y1, width1, height1) \<Rightarrow>
          (case os_ShowWindow hwnd SW_RESTORE w of
             None \<Rightarrow> w
           | Some w1 \<Rightarrow>
               let w2 = (if state = ''minimized'' then sleep 500 w1 else w1);
                   flags = (if \<not> activate then SWP_NOZORDER OR SWP_NOACTIVATE else SWP_NOZORDER)
               in (case os_SetWindowPos hwnd x1 y1 width1 height1 flags w2 of
                     None \<Rightarrow> w2
                   | Some w3 \<Rightarrow>
                       if state = ''maximized'' then
                         (case os_ShowWindow hwnd SW_MAXIMIZE w3 of None \<Rightarrow> w3 | Some w4 \<Rightarrow> w4)
                       else if state = ''minimized'' then
                         (case os_ShowWindow hwnd SW_MINIMIZE w3 of None \<Rightarrow> w3 | Some w4 \<Rightarrow> w4)
                       else if activate then
                         (case os_SetForegroundWindow hwnd w3 of None \<Rightarrow> w3 | Some w4 \<Rightarrow> w4)
                       else w3)))"

text \<open>
  \<open>MonitorFromWindow(hwnd, MONITOR_DEFAULTTONEAREST)\<close> then \<open>GetMonitorInfo(..)['Work']\<close>:
  the work area of the monitor the desktop gives for the window; \<open>None\<close> when one of the
  two raises.
\<close>

definition work_area_of_window :: "world \<Rightarrow> nat \<Rightarrow> rect option" where
  "work_area_of_window w hwnd =
     (case lookup_window w hwnd of
        None \<Rightarrow> None
      | Some wn \<Rightarrow>
          if w_monitor wn < length (monitors w) then m_work (monitors w ! w_monitor wn) else None)"

definition apply_snap_layout :: "nat \<Rightarrow> string option \<Rightarrow> world \<Rightarrow> bool \<times> world" where
  "apply_snap_layout hwnd snap_type w =
     (case snap_type of
        None \<Rightarrow> (False, w)
      | Some st \<Rightarrow>
          if st = [] then (False, w)
          else (case work_area_of_window w hwnd of
                  None \<Rightarrow> (False, w)
                | Some work \<Rightarrow>
                    (case zone_rect st work of
                       None \<Rightarrow> (False, w)
                     | Some (x, y, cw, ch) \<Rightarrow>
                         (case os_ShowWindow hwnd SW_RESTORE w of
                            None \<Rightarrow> (False, w)
                          | Some w1 \<Rightarrow>
                              (case os_SetWindowPos hwnd x y cw ch (SWP_NOACTIVATE OR SWP_NOZORDER) w1 of
                                 None \<Rightarrow> (False, w1)
                               | Some w2 \<Rightarrow> (True, w2))))))"

text \<open>One round of the loop of \<open>restore_tabs\<close>; \<open>first\<close> is \<open>i == 0\<close>.\<close>

definition send_tab :: "bool \<Rightarrow> string \<times> string \<Rightarrow> world \<Rightarrow> world" where
  "send_tab first tab w =
     (let w1 = record_call (SendKeys (if first then ''^l'' else ''^t'')) w;
          w2 = sleep (if first then 300 else 500) w1;
          w3 = record_call (SendKeys (fst tab)) w2;
          w4 = record_call (SendKeys ''{ENTER}'') w3
      in sleep 500 w4)"

definition restore_tabs :: "string \<Rightarrow> (string \<times> string) list \<Rightarrow> world \<Rightarrow> world" where
  "restore_tabs browser_executable tabs w =
     (case tabs of
        [] \<Rightarrow> w
      | t # ts \<Rightarrow>
          (case find_window_by_executable browser_executable (JStr []) w of
             (hwnd, w1) \<Rightarrow>
               (case handle_of hwnd of
                  None \<Rightarrow> w1
                | Some h \<Rightarrow>
                    (case os_SetForegroundWindow h w1 of
                       None \<Rightarrow> w1
                     | Some w2 \<Rightarrow> fold (send_tab False) ts (send_tab True t (sleep 500 w2))))))"

section \<open>Restoring a record and a layout (window_restore.py)\<close>

text \<open>
  A window record is a dictionary; a field is \<open>None\<close> when the key is absent, and
  \<open>restore_window\<close> reads each with \<open>.get(key, default)\<close>.
\<close>

record window_info =
  wi_executable :: "jval option"
  wi_title :: "jval option"
  wi_x :: "int option"
  wi_y :: "int option"
  wi_width :: "int option"
  wi_height :: "int option"
  wi_state :: "string option"
  wi_monitor :: "int option"
  wi_snap_type :: "string option"
  wi_tabs :: "(string \<times> string) list option"

definition get_or :: "'a option \<Rightarrow> 'a \<Rightarrow> 'a" where
  "get_or v d = (case v of None \<Rightarrow> d | Some x \<Rightarrow> x)"

text \<open>
  The loop \<open>for _ in range(10)\<close> of \<open>restore_window\<close>, \<open>n\<close> rounds left; \<open>hwnd\<close> is the
  variable the loop assigns, false when the loop is entered.
\<close>

fun poll_for_window :: "nat \<Rightarrow> nat option \<Rightarrow> string \<Rightarrow> jval \<Rightarrow> world \<Rightarrow> (py_exn + nat option) \<times> world" where
  "poll_for_window 0 hwnd executable title w = (Inr hwnd, w)"
| "poll_for_window (Suc n) hwnd executable title w =
     (case find_or_choose executable title (sleep 1000 w) of
        (Inl e, w1) \<Rightarrow> (Inl e, w1)
      | (Inr hwnd1, w1) \<Rightarrow>
          (case handle_of hwnd1 of
             Some _ \<Rightarrow> (Inr hwnd1, w1)
           | None \<Rightarrow> poll_for_window n hwnd1 executable title w1))"

text \<open>The end of \<open>restore_window\<close>, from "Position the window or restore snap layout".\<close>

definition place_window :: "window_info \<Rightarrow> string \<Rightarrow> nat \<Rightarrow> world \<Rightarrow> world" where
  "place_window window_info executable hwnd w =
     (let x = get_or (wi_x window_info) 0;
          y = get_or (wi_y window_info) 0;
          width = get_or (wi_width window_info) 800;
          height = get_or (wi_height window_info) 600;
          state = get_or (wi_state window_info) ''normal'';
          monitor = get_or (wi_monitor window_info) 0;
          tabs = get_or (wi_tabs window_info) [];
          snap_type = wi_snap_type window_info
      in case apply_snap_layout hwnd snap_type w of
           (snapped, w1) \<Rightarrow>
             let w2 = (if \<not> snapped
                       then position_window hwnd x y width height state monitor False w1
                       else w1)
             in if tabs \<noteq> [] \<and> RESTORE_BROWSER_TABS then restore_tabs executable tabs w2 else w2)"

text \<open>The branch \<open>if is_session_managed:\<close> of \<open>restore_window\<close>.\<close>

definition restore_session_managed :: "string \<Rightarrow> jval \<Rightarrow> string set \<Rightarrow> world \<Rightarrow> (py_exn + bool) \<times> string set \<times> world" where
  "restore_session_managed executable title launched w =
     (case find_or_choose executable title w of
        (Inl e, w1) \<Rightarrow> (Inl e, launched, w1)
      | (Inr hwnd, w1) \<Rightarrow>
          (case handle_of hwnd of
             Some h \<Rightarrow>
               (Inr True, launched,
                (case os_ShowWindow h SW_RESTORE w1 of
                   None \<Rightarrow> w1
                 | Some w2 \<Rightarrow>
                     (case os_SetForegroundWindow h w2 of None \<Rightarrow> w2 | Some w3 \<Rightarrow> w3)))
           | None \<Rightarrow>
               if executable \<in> launched then (Inr True, launched, w1)
               else (case launch_program executable w1 of
                       (pid, w2) \<Rightarrow>
                         (case handle_of pid of
                            None \<Rightarrow> (Inr False, launched, w2)
                          | Some _ \<Rightarrow> (Inr True, insert executable launched, w2)))))"

text \<open>The rest of \<open>restore_window\<close>, from "Find existing window first".\<close>

definition restore_find_or_launch :: "window_info \<Rightarrow> string \<Rightarrow> jval \<Rightarrow> string set \<Rightarrow> world \<Rightarrow> (py_exn + bool) \<times> string set \<times> world" where
  "restore_find_or_launch window_info executable title launched w =
     (case find_or_choose executable title w of
        (Inl e, w1) \<Rightarrow> (Inl e, launched, w1)
      | (Inr hwnd, w1) \<Rightarrow>
          (case handle_of hwnd of
             Some h \<Rightarrow> (Inr True, launched, place_window window_info executable h w1)
           | None \<Rightarrow>
               (case launch_program executable w1 of
                  (pid, w2) \<Rightarrow>
                    (case handle_of pid of
                       None \<Rightarrow> (Inr False, launched, w2)
                     | Some _ \<Rightarrow>
                         (case poll_for_window 10 hwnd executable title w2 of
                            (Inl e, w3) \<Rightarrow> (Inl e, launched, w3)
                          | (Inr hwnd1, w3) \<Rightarrow>
                              (case handle_of hwnd1 of
                                 None \<Rightarrow> (Inr False, launched, w3)
                               | Some h \<Rightarrow>
                                   (Inr True, launched, place_window window_info executable h w3)))))))"

text \<open>
  \<open>restore_window\<close>: the result (\<open>Inl\<close> an exception that leaves the function), the
  set of launched session applications and the desktop afterwards. The set is the
  caller's, changed in place, or a fresh one when the caller passes \<open>None\<close>.
\<close>

definition restore_window :: "window_info \<Rightarrow> string set option \<Rightarrow> world \<Rightarrow> (py_exn + bool) \<times> string set \<times> world" where
  "restore_window window_info launched_session_apps w =
     (let executable = get_or (wi_executable window_info) (JStr []);
          title = get_or (wi_title window_info) (JStr []);
          state = get_or (wi_state window_info) ''normal'';
          launched = get_or launched_session_apps {}
      in case executable of
           JStr exe \<Rightarrow>
             let exe_name = exe_name_of exe;
                 is_session_managed = (exe_name \<in> set SESSION_MANAGED_APPS)
             in if state = ''minimized'' then (Inr True, launched, w)
                else if is_session_managed \<and> \<not> RESTORE_SESSION_MANAGED_APPS then (Inr True, launched, w)
                else if is_session_managed then restore_session_managed exe title launched w
                else restore_find_or_launch window_info exe title launched w
         | _ \<Rightarrow> (Inl AttributeError, launched, w))"

text \<open>
  The loop of \<open>restore_windows\<close>: \<open>success_count\<close>, the set and the desktop are carried
  from one record to the next; \<open>except Exception\<close> takes the exception of a record.
\<close>

fun restore_loop :: "window_info list \<Rightarrow> nat \<Rightarrow> string set \<Rightarrow> world \<Rightarrow> nat \<times> string set \<times> world" where
  "restore_loop [] success_count launched w = (success_count, launched, w)"
| "restore_loop (window_info # rest) success_count launched w =
     (case restore_window window_info (Some launched) w of
        (Inr True, launched1, w1) \<Rightarrow> restore_loop rest (success_count + 1) launched1 w1
      | (Inr False, launched1, w1) \<Rightarrow> restore_loop rest success_count launched1 w1
      | (Inl e, launched1, w1) \<Rightarrow> restore_loop rest success_count launched1 w1)"

definition restore_windows :: "window_info list \<Rightarrow> world \<Rightarrow> bool \<times> world" where
  "restore_windows wins w =
     (case restore_loop wins 0 {} w of
        (success_count, launched, w1) \<Rightarrow> (success_count > 0, w1))"

section \<open>Capturing the windows (window_capture.py)\<close>

definition EXCLUDED_TITLES :: "string list" where
  "EXCLUDED_TITLES = [''Program Manager'', ''Windows Input Experience'',
     ''Microsoft Text Input Application'', ''Windows Defender'', ''Security Health'']"

definition EXCLUDED_PROCESSES :: "string list" where
  "EXCLUDED_PROCESSES = [''explorer.exe'', ''systemsettings.exe'', ''searchhost.exe'',
     ''startmenuexperiencehost.exe'', ''textinputhost.exe'', ''applicationframehost.exe'']"

definition EXCLUDED_TITLE_PARTS :: "string list" where
  "EXCLUDED_TITLE_PARTS = [''Save Window Layout'', ''Window Restore - Manage Presets'']"

text \<open>The keys of the dictionary \<open>BROWSERS\<close> of browser_tabs.py.\<close>

definition BROWSERS :: "string list" where
  "BROWSERS = [''chrome.exe'', ''msedge.exe'', ''firefox.exe'', ''brave.exe'', ''opera.exe'']"

definition get_process_name :: "window \<Rightarrow> string option" where
  "get_process_name wn = map_option lower (w_proc_name wn)"

definition is_visible_window :: "window \<Rightarrow> bool" where
  "is_visible_window wn =
     (if \<not> w_visible wn then False
      else if w_title wn = [] then False
      else if list_ex (\<lambda>excluded. py_in (lower excluded) (lower (w_title wn))) EXCLUDED_TITLES then False
      else if (case get_process_name wn of
                 None \<Rightarrow> False
               | Some proc_name \<Rightarrow> proc_name \<noteq> [] \<and> proc_name \<in> set EXCLUDED_PROCESSES) then False
      else if (w_exstyle wn AND WS_EX_TOOLWINDOW) \<noteq> 0 then False
      else if (w_style wn AND WS_CAPTION) = 0 then False
      else True)"

definition get_window_state :: "window \<Rightarrow> string" where
  "get_window_state wn =
     (if w_show_cmd wn = SW_SHOWMAXIMIZED then ''maximized''
      else if w_show_cmd wn = SW_SHOWMINIMIZED then ''minimized''
      else ''normal'')"

text \<open>
  The loop of \<open>get_monitor_info\<close> from index \<open>i\<close> on: the first monitor whose bounds
  hold the centre, edges included; \<open>0\<close> when none does or \<open>GetMonitorInfo\<close> raises.
\<close>

fun monitor_containing :: "nat \<Rightarrow> monitor list \<Rightarrow> int \<Rightarrow> int \<Rightarrow> nat" where
  "monitor_containing i [] cx cy = 0"
| "monitor_containing i (m # ms) cx cy =
     (case m_work m of
        None \<Rightarrow> 0
      | Some _ \<Rightarrow>
          (case m_bounds m of (r0, r1, r2, r3) \<Rightarrow>
             if r0 \<le> cx \<and> cx \<le> r2 \<and> r1 \<le> cy \<and> cy \<le> r3 then i
             else monitor_containing (Suc i) ms cx cy))"

definition get_monitor_info :: "world \<Rightarrow> window \<Rightarrow> nat" where
  "get_monitor_info w wn =
     (case w_rect wn of (r0, r1, r2, r3) \<Rightarrow>
        monitor_containing 0 (monitors w) ((r0 + r2) div 2) ((r1 + r3) div 2))"

definition detect_snap_type :: "world \<Rightarrow> nat \<Rightarrow> rect \<Rightarrow> string \<Rightarrow> string option" where
  "detect_snap_type w hwnd rect state =
     (if state \<noteq> ''normal'' then None
      else (case work_area_of_window w hwnd of
              None \<Rightarrow> None
            | Some work \<Rightarrow> classify rect work))"

definition is_own_utility_window :: "string \<Rightarrow> string \<Rightarrow> bool" where
  "is_own_utility_window executable title =
     (let exe_name = exe_name_of executable
      in exe_name \<in> set [''python.exe'', ''pythonw.exe''] \<and>
         list_ex (\<lambda>t. py_in (lower t) (lower title)) EXCLUDED_TITLE_PARTS)"

text \<open>
  \<open>get_browser_tabs\<close> asks the browser's debugging port; \<open>w_tabs\<close> is the answer, the
  empty list when the query fails.
\<close>

definition get_browser_tabs :: "window \<Rightarrow> string \<Rightarrow> (string \<times> string) list" where
  "get_browser_tabs wn executable =
     (if exe_name_of executable \<notin> set BROWSERS then [] else w_tabs wn)"

definition get_window_info :: "world \<Rightarrow> nat \<Rightarrow> bool \<Rightarrow> bool \<Rightarrow> window_info option" where
  "get_window_info w hwnd include_tabs include_minimized =
     (case lookup_window w hwnd of
        None \<Rightarrow> None
      | Some wn \<Rightarrow>
          if \<not> is_visible_window wn then None
          else (case w_proc_path wn of
                  None \<Rightarrow> None
                | Some executable \<Rightarrow>
                    if executable = [] then None
                    else
                      let rect = w_rect wn;
                          title = w_title wn;
                          state = get_window_state wn
                      in if state = ''minimized'' \<and> \<not> include_minimized then None
                         else
                           let monitor = get_monitor_info w wn;
                               snap_type = detect_snap_type w hwnd rect state
                           in if is_own_utility_window executable title then None
                              else
                                (case rect of (r0, r1, r2, r3) \<Rightarrow>
                                   let tabs = (if include_tabs then get_browser_tabs wn executable else [])
                                   in Some \<lparr>wi_executable = Some (JStr executable),
                                            wi_title = Some (JStr title),
                                            wi_x = Some r0,
                                            wi_y = Some r1,
                                            wi_width = Some (r2 - r0),
                                            wi_height = Some (r3 - r1),
                                            wi_state = Some state,
                                            wi_monitor = Some (int monitor),
                                            wi_snap_type =
                                              (case snap_type of
                                                 None \<Rightarrow> None
                                               | Some st \<Rightarrow> if st = [] then None else Some st),
                                            wi_tabs = (if tabs = [] then None else Some tabs)\<rparr>)))"

definition capture_windows :: "world \<Rightarrow> bool \<Rightarrow> bool \<Rightarrow> window_info list" where
  "capture_windows w include_tabs include_minimized =
     List.map_filter (\<lambda>wn. get_window_info w (w_hwnd wn) include_tabs include_minimized) (windows w)"

section \<open>What a run reports\<close>

text \<open>
  The result of each record in turn, run as the loop of \<open>restore_windows\<close> runs them;
  a record is successfully handled when its result is \<open>Inr True\<close>.
\<close>

fun record_results :: "window_info list \<Rightarrow> string set \<Rightarrow> world \<Rightarrow> (py_exn + bool) list" where
  "record_results [] launched w = []"
| "record_results (window_info # rest) launched w =
     (case restore_window window_info (Some launched) w of
        (res, launched1, w1) \<Rightarrow> res # record_results rest launched1 w1)"


section \<open>Conditions on the desktop and its trace\<close>

text \<open>
  No window of the executable is open, none is about to open, and starting the
  executable opens none.
\<close>

definition never_appears :: "string \<Rightarrow> world \<Rightarrow> bool" where
  "never_appears executable w =
     (\<not> list_ex (is_candidate (exe_name_of executable))
          (windows w @ map snd (pending w) @
           (case map_of (programs w) executable of
              None \<Rightarrow> []
            | Some lo \<Rightarrow> map snd (lo_windows lo))))"

text \<open>\<open>Popen\<close> starts the executable and gives a process id that is true.\<close>

definition starts :: "string \<Rightarrow> world \<Rightarrow> bool" where
  "starts executable w =
     (case map_of (programs w) executable of None \<Rightarrow> False | Some lo \<Rightarrow> lo_pid lo \<noteq> 0)"

text \<open>Every process id that \<open>Popen\<close> can give on this desktop is true (not zero).\<close>

definition pids_true :: "world \<Rightarrow> bool" where
  "pids_true w = list_all (\<lambda>p. lo_pid (snd p) \<noteq> 0) (programs w)"

text \<open>The calls that count as a launch or as a round of polling.\<close>

fun launch_or_poll :: "os_call \<Rightarrow> bool" where
  "launch_or_poll (Popen e) = True"
| "launch_or_poll (Sleep ms) = (ms = 1000)"
| "launch_or_poll _ = False"

section \<open>The search of restore_window, stated\<close>





section \<open>Example desktops and layouts\<close>

definition mk_window :: "nat \<Rightarrow> string \<Rightarrow> string \<Rightarrow> rect \<Rightarrow> window" where
  "mk_window h name ttl r =
     \<lparr>w_hwnd = h, w_visible = True, w_title = ttl, w_proc_name = Some name,
      w_proc_path = Some (''C:'' @ [CHR 0x5C] @ name), w_style = 0x14CF0000, w_exstyle = 0x100,
      w_show_cmd = 1, w_rect = r, w_monitor = 0, w_tabs = []\<rparr>"

definition mk_record :: "string \<Rightarrow> string \<Rightarrow> int \<times> int \<times> int \<times> int \<Rightarrow> string \<Rightarrow> window_info" where
  "mk_record name ttl b st =
     (case b of (x, y, cw, ch) \<Rightarrow>
        \<lparr>wi_executable = Some (JStr (''C:'' @ [CHR 0x5C] @ name)), wi_title = Some (JStr ttl),
         wi_x = Some x, wi_y = Some y, wi_width = Some cw, wi_height = Some ch,
         wi_state = Some st, wi_monitor = Some 0, wi_snap_type = None, wi_tabs = None\<rparr>)"

definition full_hd :: monitor where
  "full_hd = \<lparr>m_bounds = (0, 0, 1920, 1080), m_work = Some (0, 0, 1920, 1040)\<rparr>"


definition desk :: world where
  "desk = \<lparr>windows = [mk_window 101 ''notepad.exe'' ''notes.txt - Notepad'' (10, 10, 500, 400),
                       mk_window 102 ''Calc.exe'' ''Calculator'' (600, 10, 900, 500)],
           monitors = [full_hd], programs = [], pending = [], clock = 0,
           foreground = None, calls = []\<rparr>"


text \<open>A desktop with a minimized and a normal window, both on the left half.\<close>

definition desk_min :: world where
  "desk_min = \<lparr>windows = [(mk_window 301 ''notepad.exe'' ''a.txt - Notepad'' (0, 0, 960, 1040))
                              \<lparr>w_show_cmd := SW_SHOWMINIMIZED\<rparr>,
                           mk_window 302 ''notepad.exe'' ''b.txt - Notepad'' (0, 0, 960, 1040)],
               monitors = [full_hd], programs = [], pending = [], clock = 0,
               foreground = None, calls = []\<rparr>"


text \<open>
  A desktop where \<open>slow.exe\<close> can be started and opens no window, and where
  \<open>chrome.exe\<close> can be started and has no window yet.
\<close>

definition desk_slow :: world where
  "desk_slow = \<lparr>windows = [mk_window 101 ''notepad.exe'' ''notes.txt - Notepad'' (10, 10, 500, 400)],
                monitors = [full_hd],
                programs = [(''C:'' @ [CHR 0x5C] @ ''slow.exe'', \<lparr>lo_pid = 4242, lo_windows = []\<rparr>),
                            (''C:'' @ [CHR 0x5C] @ ''chrome.exe'', \<lparr>lo_pid = 4300, lo_windows = []\<rparr>)],
                pending = [], clock = 0, foreground = None, calls = []\<rparr>"


text \<open>Two records of the same browser, which has no window yet.\<close>

definition layout_chrome2 :: "window_info list" where
  "layout_chrome2 = [mk_record ''chrome.exe'' ''Inbox'' (0, 0, 800, 600) ''normal'',
                     mk_record ''chrome.exe'' ''Calendar'' (800, 0, 800, 600) ''normal'']"


section \<open>Snap zones: the inverse mapping\<close>

lemma zone_rect_defined:
  "z \<in> set snap_zones \<Longrightarrow> zone_rect z (wx1, wy1, wx2, wy2) \<noteq> None"
  by (auto simp: snap_zones_def zone_rect_def layouts_def Let_def)

text \<open>
  C3, as amended. On a work area at least 50 pixels wide and 50 pixels high, each of
  the eight zones is recovered: classifying the rectangle that \<open>apply_snap_layout\<close>
  gives \<open>SetWindowPos\<close> for zone \<open>z\<close> returns \<open>z\<close>.
\<close>

theorem classify_zone_rect:
  assumes "z \<in> set snap_zones" and "50 \<le> wx2 - wx1" and "50 \<le> wy2 - wy1"
  shows "\<exists>r. zone_rect z (wx1, wy1, wx2, wy2) = Some r \<and>
             classify (rect_of_xywh r) (wx1, wy1, wx2, wy2) = Some z"
  using assms
  apply (simp add: snap_zones_def)
  apply (elim disjE)
         apply (simp_all add: zone_rect_def layouts_def Let_def classify_def rect_of_xywh_def)
         apply presburger+
  done

theorem classify_zone_rect_witness:
  "zone_rect ''top_right'' (0, 0, 1920, 1040) = Some (960, 0, 960, 520) \<and>
   classify (rect_of_xywh (960, 0, 960, 520)) (0, 0, 1920, 1040) = Some ''top_right''"
  using classify_zone_rect [where z = "''top_right''" and ?wx1.0 = 0 and ?wy1.0 = 0
                              and ?wx2.0 = 1920 and ?wy2.0 = 1040]
  by (simp add: snap_zones_def zone_rect_def layouts_def)

text \<open>
  C3 as stated fails on a work area 40 pixels wide: the right half starts 20 pixels
  from the left edge, within the tolerance of 24, and is classified as the left half.
\<close>

theorem classify_zone_rect_counterexample:
  "zone_rect ''right'' (0, 0, 40, 40) = Some (20, 0, 20, 40) \<and>
   classify (rect_of_xywh (20, 0, 20, 40)) (0, 0, 40, 40) = Some ''left''"
  by (simp add: zone_rect_def layouts_def classify_def rect_of_xywh_def)

section \<open>Frame lemmas\<close>

lemma record_call_simps [simp]:
  "calls (record_call c w) = calls w @ [c]"
  "windows (record_call c w) = windows w"
  "monitors (record_call c w) = monitors w"
  "programs (record_call c w) = programs w"
  "pending (record_call c w) = pending w"
  "clock (record_call c w) = clock w"
  by (simp_all add: record_call_def)

lemma lookup_window_record_call [simp]: "lookup_window (record_call c w) h = lookup_window w h"
  by (simp add: lookup_window_def)

lemma lookup_window_Some:
  "lookup_window w h = Some wn \<Longrightarrow> wn \<in> set (windows w) \<and> w_hwnd wn = h"
  by (auto simp: lookup_window_def find_Some_iff)

lemma lookup_window_None: "lookup_window w h = None \<longleftrightarrow> h \<notin> w_hwnd ` set (windows w)"
  by (auto simp: lookup_window_def find_None_iff)

lemma update_window_simps [simp]:
  "calls (update_window h f w) = calls w"
  "monitors (update_window h f w) = monitors w"
  "programs (update_window h f w) = programs w"
  "pending (update_window h f w) = pending w"
  "clock (update_window h f w) = clock w"
  by (simp_all add: update_window_def)

lemma os_ShowWindow_Some:
  assumes "os_ShowWindow h cmd w = Some w'"
  shows "calls w' = calls w @ [ShowWindow h cmd]"
    and "map w_hwnd (windows w') = map w_hwnd (windows w)"
    and "map w_rect (windows w') = map w_rect (windows w)"
    and "monitors w' = monitors w"
    and "programs w' = programs w"
    and "pending w' = pending w"
  using assms
  by (auto simp: os_ShowWindow_def update_window_def split: option.splits)


lemma os_SetForegroundWindow_Some:
  assumes "os_SetForegroundWindow h w = Some w'"
  shows "calls w' = calls w @ [SetForegroundWindow h]"
    and "windows w' = windows w"
    and "monitors w' = monitors w"
    and "programs w' = programs w"
    and "pending w' = pending w"
  using assms
  by (auto simp: os_SetForegroundWindow_def record_call_def split: option.splits)


lemma os_SetWindowPos_Some:
  assumes "os_SetWindowPos h x y cx cy fl w = Some w'"
  shows "calls w' = calls w @ [SetWindowPos h x y cx cy fl]"
    and "map w_hwnd (windows w') = map w_hwnd (windows w)"
    and "monitors w' = monitors w"
    and "programs w' = programs w"
    and "pending w' = pending w"
  using assms
  by (auto simp: os_SetWindowPos_def update_window_def split: option.splits)

lemma os_SetWindowPos_None:
  "os_SetWindowPos h x y cx cy fl w = None \<longleftrightarrow> h \<notin> w_hwnd ` set (windows w)"
  by (force simp: os_SetWindowPos_def lookup_window_None dest: lookup_window_Some split: option.splits)

lemma sleep_simps [simp]:
  "calls (sleep ms w) = calls w @ [Sleep ms]"
  "monitors (sleep ms w) = monitors w"
  "programs (sleep ms w) = programs w"
  by (simp_all add: sleep_def Let_def)

lemma sleep_windows_pending:
  "set (windows (sleep ms w)) \<union> snd ` set (pending (sleep ms w)) = set (windows w) \<union> snd ` set (pending w)"
  by (auto simp: sleep_def Let_def)

lemma find_window_by_executable_world [simp]:
  "snd (find_window_by_executable e t w) = record_call EnumWindows w"
  by (simp add: find_window_by_executable_def Let_def)

lemma find_windows_by_executable_world [simp]:
  "snd (find_windows_by_executable e w) = record_call EnumWindows w"
  by (simp add: find_windows_by_executable_def Let_def)


section \<open>Capture\<close>

lemma get_window_info_minimized:
  "get_window_info w hwnd it im = Some wi \<Longrightarrow> wi_state wi = Some ''minimized'' \<Longrightarrow> wi_snap_type wi = None"
  by (auto simp: get_window_info_def detect_snap_type_def Let_def split: option.splits if_splits prod.splits)

text \<open>
  C8. A record that \<open>capture_windows\<close> returns with state \<open>minimized\<close> has no
  \<open>snap_type\<close> key.
\<close>

theorem captured_minimized_no_snap:
  assumes "wi \<in> set (capture_windows w include_tabs include_minimized)"
    and "wi_state wi = Some ''minimized''"
  shows "wi_snap_type wi = None"
proof -
  from assms(1) obtain wn :: window
    where "get_window_info w (w_hwnd wn) include_tabs include_minimized = Some wi"
    by (auto simp: capture_windows_def map_filter_def)
  then show ?thesis using assms(2) by (rule get_window_info_minimized)
qed

theorem captured_minimized_no_snap_witness:
  "hd (capture_windows desk_min False True) \<in> set (capture_windows desk_min False True) \<and>
   wi_state (hd (capture_windows desk_min False True)) = Some ''minimized'' \<and>
   wi_snap_type (hd (capture_windows desk_min False True)) = None"
proof -
  have h1: "hd (capture_windows desk_min False True) \<in> set (capture_windows desk_min False True)"
    by code_simp
  have h2: "wi_state (hd (capture_windows desk_min False True)) = Some ''minimized''"
    by code_simp
  show ?thesis using h1 h2 captured_minimized_no_snap [OF h1 h2] by simp
qed

section \<open>Minimized records\<close>

text \<open>
  C7. For a record whose state is \<open>minimized\<close> (its executable a string, as the data
  model has it), \<open>restore_window\<close> returns \<open>True\<close> and leaves the desktop as it was,
  its trace of calls included: no enumeration, launch, positioning or minimize call.
\<close>

theorem restore_window_minimized:
  assumes "get_or (wi_executable r) (JStr []) = JStr exe" and "wi_state r = Some ''minimized''"
  shows "restore_window r launched w = (Inr True, get_or launched {}, w)"
  using assms by (simp add: restore_window_def get_or_def Let_def)

theorem restore_window_minimized_witness:
  "get_or (wi_executable (mk_record ''notepad.exe'' ''a.txt - Notepad'' (0, 0, 960, 1040) ''minimized'')) (JStr [])
     = JStr (''C:'' @ [CHR 0x5C] @ ''notepad.exe'') \<and>
   wi_state (mk_record ''notepad.exe'' ''a.txt - Notepad'' (0, 0, 960, 1040) ''minimized'') = Some ''minimized'' \<and>
   restore_window (mk_record ''notepad.exe'' ''a.txt - Notepad'' (0, 0, 960, 1040) ''minimized'') (Some {}) desk_min
     = (Inr True, get_or (Some {}) {}, desk_min)"
proof -
  have h1: "get_or (wi_executable (mk_record ''notepad.exe'' ''a.txt - Notepad'' (0, 0, 960, 1040) ''minimized'')) (JStr [])
     = JStr (''C:'' @ [CHR 0x5C] @ ''notepad.exe'')"
    by (simp add: mk_record_def get_or_def)
  have h2: "wi_state (mk_record ''notepad.exe'' ''a.txt - Notepad'' (0, 0, 960, 1040) ''minimized'') = Some ''minimized''"
    by (simp add: mk_record_def)
  show ?thesis using h1 h2 restore_window_minimized [OF h1 h2, of "Some {}" desk_min] by simp
qed

section \<open>The value of a run\<close>




section \<open>Keeping a placed window on a monitor\<close>

lemma keep_visible_min_size:
  assumes "List.map_filter m_work mons \<noteq> []"
    and "keep_visible mons x y width height monitor = Some (x1, y1, cw, ch)"
  shows "320 \<le> cw \<and> 220 \<le> ch"
proof (cases "list_ex (intersects (x, y, x + max 320 width, y + max 220 height)) (List.map_filter m_work mons)")
  case True
  with assms have "cw = max 320 width" and "ch = max 220 height"
    by (simp_all add: keep_visible_def Let_def)
  then show ?thesis by simp
next
  case False
  define idx where "idx = (if 0 \<le> monitor \<and> monitor < int (length mons) then nat monitor else 0)"
  from assms False obtain wx1 wy1 wx2 wy2 where
    wa: "m_work (mons ! idx) = Some (wx1, wy1, wx2, wy2)"
    by (cases "m_work (mons ! idx)") (auto simp: keep_visible_def Let_def idx_def)
  from assms False wa have "cw = min (max 320 width) (max 320 (wx2 - wx1))"
    and "ch = min (max 220 height) (max 220 (wy2 - wy1))"
    by (simp_all add: keep_visible_def Let_def idx_def)
  then show ?thesis by simp
qed

lemma keep_visible_intersecting:
  assumes "List.map_filter m_work mons \<noteq> []"
    and "list_ex (intersects (x, y, x + max 320 width, y + max 220 height)) (List.map_filter m_work mons)"
  shows "keep_visible mons x y width height monitor = Some (x, y, max 320 width, max 220 height)"
  using assms
  by (simp add: keep_visible_def Let_def)


lemma os_ShowWindow_lookup:
  "os_ShowWindow h cmd w = Some w' \<Longrightarrow> (lookup_window w' k = None) = (lookup_window w k = None)"
  using os_ShowWindow_Some(2) [of h cmd w w'] 
  by (simp add: lookup_window_None) (metis list.set_map)

lemma position_window_setpos:
  assumes "calls (position_window hwnd x y width height state monitor activate w) = calls w @ cs"
    and "SetWindowPos h x1 y1 cw ch fl \<in> set cs"
  shows "keep_visible (monitors w) x y width height monitor = Some (x1, y1, cw, ch) \<and> h = hwnd"
proof (cases "keep_visible (monitors w) x y width height monitor")
  case None
  with assms show ?thesis by (simp add: position_window_def)
next
  case (Some p)
  obtain a b c d where p: "p = (a, b, c, d)" by (cases p) auto
  show ?thesis
  proof (cases "os_ShowWindow hwnd SW_RESTORE w")
    case None
    with assms Some p show ?thesis by (simp add: position_window_def)
  next
    case sw: (Some w1)
    define w2 where "w2 = (if state = ''minimized'' then sleep 500 w1 else w1)"
    define flags where "flags = (if \<not> activate then SWP_NOZORDER OR SWP_NOACTIVATE else SWP_NOZORDER)"
    have c2: "\<exists>pre. calls w2 = calls w @ pre \<and> set pre \<subseteq> {ShowWindow hwnd SW_RESTORE, Sleep 500}"
      using os_ShowWindow_Some(1) [OF sw] by (simp add: w2_def)
    show ?thesis
    proof (cases "os_SetWindowPos hwnd a b c d flags w2")
      case None
      with assms Some p sw c2 show ?thesis
        by (auto simp: position_window_def Let_def w2_def flags_def)
    next
      case sp: (Some w3)
      have c3: "calls w3 = calls w2 @ [SetWindowPos hwnd a b c d flags]"
        using os_SetWindowPos_Some(1) [OF sp] .
      define w4 where "w4 = position_window hwnd x y width height state monitor activate w"
      have "calls w4 = calls w3 \<or> (\<exists>c'. c' \<in> {ShowWindow hwnd SW_MAXIMIZE, ShowWindow hwnd SW_MINIMIZE, SetForegroundWindow hwnd}
              \<and> calls w4 = calls w3 @ [c'])"
        using Some p sw sp
        by (auto simp: w4_def position_window_def Let_def w2_def[symmetric] flags_def[symmetric]
              os_ShowWindow_Some(1) os_SetForegroundWindow_Some(1) split: option.splits)
      with c2 c3 assms show ?thesis
        by (auto simp: w4_def Some p)
    qed
  qed
qed


text \<open>
  C10. When a work area is available, a \<open>SetWindowPos\<close> call that \<open>position_window\<close>
  makes has width at least 320 and height at least 220; when the enlarged rectangle
  meets a work area, the call keeps the saved position and applies exactly
  \<open>max(320, width)\<close> and \<open>max(220, height)\<close>.
\<close>

theorem position_window_min_size:
  assumes "List.map_filter m_work (monitors w) \<noteq> []"
    and "calls (position_window hwnd x y width height state monitor activate w) = calls w @ cs"
    and "SetWindowPos h x1 y1 cw ch fl \<in> set cs"
  shows "320 \<le> cw \<and> 220 \<le> ch \<and>
         (list_ex (intersects (x, y, x + max 320 width, y + max 220 height))
            (List.map_filter m_work (monitors w)) \<longrightarrow>
          x1 = x \<and> y1 = y \<and> cw = max 320 width \<and> ch = max 220 height)"
proof -
  have kv: "keep_visible (monitors w) x y width height monitor = Some (x1, y1, cw, ch)"
    using position_window_setpos [OF assms(2,3)] by simp
  have "320 \<le> cw \<and> 220 \<le> ch"
    using keep_visible_min_size [OF assms(1) kv] .
  moreover have "x1 = x \<and> y1 = y \<and> cw = max 320 width \<and> ch = max 220 height"
    if "list_ex (intersects (x, y, x + max 320 width, y + max 220 height))
          (List.map_filter m_work (monitors w))"
    using keep_visible_intersecting [OF assms(1) that, of monitor] kv by simp
  ultimately show ?thesis by blast
qed

theorem position_window_min_size_witness:
  "List.map_filter m_work (monitors desk) \<noteq> [] \<and>
   calls (position_window 101 100 100 200 150 ''normal'' 0 False desk)
     = calls desk @ [ShowWindow 101 9, SetWindowPos 101 100 100 320 220 20] \<and>
   SetWindowPos 101 100 100 320 220 20 \<in> set [ShowWindow 101 9, SetWindowPos 101 100 100 320 220 20] \<and>
   list_ex (intersects (100, 100, 100 + max 320 200, 100 + max 220 150))
      (List.map_filter m_work (monitors desk)) \<and>
   (320::int) = max 320 200 \<and> (220::int) = max 220 150"
proof -
  have h1: "List.map_filter m_work (monitors desk) \<noteq> []"
    by code_simp
  have h2: "calls (position_window 101 100 100 200 150 ''normal'' 0 False desk)
     = calls desk @ [ShowWindow 101 9, SetWindowPos 101 100 100 320 220 20]"
    by code_simp
  have h3: "SetWindowPos 101 100 100 320 220 20 \<in> set [ShowWindow 101 9, SetWindowPos 101 100 100 320 220 20]"
    by simp
  have h4: "list_ex (intersects (100, 100, 100 + max 320 200, 100 + max 220 150))
      (List.map_filter m_work (monitors desk))"
    by code_simp
  show ?thesis using h1 h2 h3 h4 position_window_min_size [OF h1 h2 h3] by simp
qed

section \<open>Finding: what it returns and what it leaves\<close>

lemma find_window_by_executable_eq:
  "find_window_by_executable e t w = (r, v) \<Longrightarrow> v = record_call EnumWindows w"
  using find_window_by_executable_world [of e t w] by simp

lemma find_windows_by_executable_eq:
  "find_windows_by_executable e w = (r, v) \<Longrightarrow> v = record_call EnumWindows w"
  using find_windows_by_executable_world [of e w] by simp






lemma find_or_choose_world:
  "snd (find_or_choose e t w) = record_call EnumWindows w \<or>
   snd (find_or_choose e t w) = record_call EnumWindows (record_call EnumWindows w)"
  by (auto simp: find_or_choose_def split: prod.splits option.splits
      dest!: find_window_by_executable_eq find_windows_by_executable_eq)


section \<open>Session-managed applications\<close>






section \<open>Polling after a launch\<close>

lemma find_or_choose_calls:
  "\<exists>cs. calls (snd (find_or_choose e t w)) = calls w @ cs \<and>
        (cs = [EnumWindows] \<or> cs = [EnumWindows, EnumWindows])"
  using find_or_choose_world [of e t w] by auto

lemma poll_for_window_calls:
  "\<exists>cs. calls (snd (poll_for_window n hwnd e t w)) = calls w @ cs \<and>
        set cs \<subseteq> {Sleep 1000, EnumWindows} \<and> count_list cs (Sleep 1000) \<le> n"
proof (induction n arbitrary: hwnd w)
  case 0
  show ?case by simp
next
  case (Suc n)
  obtain res w1 where f: "find_or_choose e t (sleep 1000 w) = (res, w1)"
    by (cases "find_or_choose e t (sleep 1000 w)") auto
  obtain cs1 where c1: "calls w1 = calls w @ Sleep 1000 # cs1"
    and cs1: "cs1 = [EnumWindows] \<or> cs1 = [EnumWindows, EnumWindows]"
    using find_or_choose_calls [of e t "sleep 1000 w"] f by auto
  have base: "\<exists>cs. calls w1 = calls w @ cs \<and> set cs \<subseteq> {Sleep 1000, EnumWindows} \<and>
                count_list cs (Sleep 1000) \<le> Suc n"
    using c1 cs1 by auto
  show ?case
  proof (cases res)
    case (Inl ex)
    with f base show ?thesis by simp
  next
    case (Inr hwnd1)
    show ?thesis
    proof (cases "handle_of hwnd1")
      case (Some k)
      with f Inr base show ?thesis by simp
    next
      case None
      obtain cs2 where c2: "calls (snd (poll_for_window n hwnd1 e t w1)) = calls w1 @ cs2"
        and s2: "set cs2 \<subseteq> {Sleep 1000, EnumWindows}" and n2: "count_list cs2 (Sleep 1000) \<le> n"
        using Suc.IH [of hwnd1 w1] by blast
      have "calls (snd (poll_for_window (Suc n) hwnd e t w)) = calls w @ (Sleep 1000 # cs1 @ cs2)"
        using f Inr None c1 c2 by simp
      moreover have "set (Sleep 1000 # cs1 @ cs2) \<subseteq> {Sleep 1000, EnumWindows}"
        using cs1 s2 by auto
      moreover have "count_list (Sleep 1000 # cs1 @ cs2) (Sleep 1000) \<le> Suc n"
        using cs1 n2 by auto
      ultimately show ?thesis by blast
    qed
  qed
qed

lemma find_or_choose_none:
  assumes "\<not> list_ex (is_candidate (exe_name_of e)) (windows w)"
  shows "find_or_choose e t w = (Inr None, record_call EnumWindows (record_call EnumWindows w))"
proof -
  have "filter (is_candidate (exe_name_of e)) (windows w) = []"
    using assms by (auto simp: list_ex_iff filter_empty_conv)
  moreover have "filter (\<lambda>wn. is_candidate (exe_name_of e) wn \<and> title_accepts t (w_title wn)) (windows w) = []"
    using assms by (auto simp: list_ex_iff filter_empty_conv)
  ultimately show ?thesis
    by (simp add: find_or_choose_def find_window_by_executable_def find_windows_by_executable_def
          Let_def handle_of_def choose_best_window_def)
qed

lemma sleep_no_candidate:
  assumes "\<not> list_ex P (windows w @ map snd (pending w))"
  shows "\<not> list_ex P (windows (sleep ms w) @ map snd (pending (sleep ms w)))"
  using assms by (auto simp: list_ex_iff sleep_def Let_def)

lemma poll_for_window_none:
  assumes "\<not> list_ex (is_candidate (exe_name_of e)) (windows w @ map snd (pending w))"
    and "handle_of hwnd = None"
  shows "\<exists>hwnd' w'. poll_for_window n hwnd e t w = (Inr hwnd', w') \<and> handle_of hwnd' = None \<and>
           calls w' = calls w @ concat (replicate n [Sleep 1000, EnumWindows, EnumWindows])"
  using assms
proof (induction n arbitrary: hwnd w)
  case 0
  then show ?case by simp
next
  case (Suc n)
  let ?ws = "sleep 1000 w"
  let ?w1 = "record_call EnumWindows (record_call EnumWindows ?ws)"
  have nc: "\<not> list_ex (is_candidate (exe_name_of e)) (windows ?ws @ map snd (pending ?ws))"
    using Suc.prems(1) by (rule sleep_no_candidate)
  then have "\<not> list_ex (is_candidate (exe_name_of e)) (windows ?ws)"
    by (auto simp: list_ex_iff)
  then have f: "find_or_choose e t ?ws = (Inr None, ?w1)"
    by (rule find_or_choose_none)
  have nc1: "\<not> list_ex (is_candidate (exe_name_of e)) (windows ?w1 @ map snd (pending ?w1))"
    using nc by simp
  have hn: "handle_of None = None" by (simp add: handle_of_def)
  obtain hwnd' w' where p: "poll_for_window n None e t ?w1 = (Inr hwnd', w')"
    and h': "handle_of hwnd' = None"
    and c': "calls w' = calls ?w1 @ concat (replicate n [Sleep 1000, EnumWindows, EnumWindows])"
    using Suc.IH [OF nc1 hn] by blast
  have "poll_for_window (Suc n) hwnd e t w = (Inr hwnd', w')"
    using f p hn by simp
  moreover have "calls w' = calls w @ concat (replicate (Suc n) [Sleep 1000, EnumWindows, EnumWindows])"
    using c' by simp
  ultimately show ?case using h' by blast
qed

section \<open>Counting launches and polls\<close>

lemma os_ShowWindow_count:
  "os_ShowWindow h cmd w = Some w' \<Longrightarrow> launch_or_poll c \<Longrightarrow>
   count_list (calls w') c = count_list (calls w) c"
  using os_ShowWindow_Some(1) [of h cmd w w'] by (cases c) auto

lemma os_SetWindowPos_count:
  "os_SetWindowPos h x y cx cy fl w = Some w' \<Longrightarrow> launch_or_poll c \<Longrightarrow>
   count_list (calls w') c = count_list (calls w) c"
  using os_SetWindowPos_Some(1) [of h x y cx cy fl w w'] by (cases c) auto

lemma os_SetForegroundWindow_count:
  "os_SetForegroundWindow h w = Some w' \<Longrightarrow> launch_or_poll c \<Longrightarrow>
   count_list (calls w') c = count_list (calls w) c"
  using os_SetForegroundWindow_Some(1) [of h w w'] by (cases c) auto

lemma sleep_500_count:
  "launch_or_poll c \<Longrightarrow> count_list (calls (sleep 500 w)) c = count_list (calls w) c"
  by (cases c) auto

lemma record_call_EnumWindows_count:
  "launch_or_poll c \<Longrightarrow> count_list (calls (record_call EnumWindows w)) c = count_list (calls w) c"
  by (cases c) auto

lemma find_or_choose_count:
  "launch_or_poll c \<Longrightarrow> count_list (calls (snd (find_or_choose e t w))) c = count_list (calls w) c"
  using find_or_choose_world [of e t w] by (auto simp: record_call_EnumWindows_count)

lemma position_window_count:
  assumes "launch_or_poll c"
  shows "count_list (calls (position_window hwnd x y width height state monitor activate w)) c
           = count_list (calls w) c"
proof (cases "keep_visible (monitors w) x y width height monitor")
  case None
  then show ?thesis by (simp add: position_window_def)
next
  case (Some p)
  obtain a b cw ch where p: "p = (a, b, cw, ch)" by (cases p) auto
  show ?thesis
  proof (cases "os_ShowWindow hwnd SW_RESTORE w")
    case None
    with Some p show ?thesis by (simp add: position_window_def)
  next
    case sw: (Some w1)
    define w2 where "w2 = (if state = ''minimized'' then sleep 500 w1 else w1)"
    define flags where "flags = (if \<not> activate then SWP_NOZORDER OR SWP_NOACTIVATE else SWP_NOZORDER)"
    have c2: "count_list (calls w2) c = count_list (calls w) c"
      using os_ShowWindow_count [OF sw assms] sleep_500_count [OF assms, of w1] by (simp add: w2_def)
    show ?thesis
    proof (cases "os_SetWindowPos hwnd a b cw ch flags w2")
      case None
      with Some p sw c2 show ?thesis
        by (simp add: position_window_def Let_def w2_def [symmetric] flags_def [symmetric])
    next
      case sp: (Some w3)
      have c3: "count_list (calls w3) c = count_list (calls w) c"
        using os_SetWindowPos_count [OF sp assms] c2 by simp
      have "count_list (calls (position_window hwnd x y width height state monitor activate w)) c
              = count_list (calls w3) c"
        using Some p sw sp
        by (auto simp: position_window_def Let_def w2_def [symmetric] flags_def [symmetric]
              os_ShowWindow_count [OF _ assms] os_SetForegroundWindow_count [OF _ assms]
              split: option.splits)
      with c3 show ?thesis by simp
    qed
  qed
qed

lemma apply_snap_layout_count:
  assumes "launch_or_poll c"
  shows "count_list (calls (snd (apply_snap_layout hwnd snap_type w))) c = count_list (calls w) c"
  by (auto simp: apply_snap_layout_def os_ShowWindow_count [OF _ assms] os_SetWindowPos_count [OF _ assms]
      split: option.splits prod.splits)

lemma place_window_count:
  assumes "launch_or_poll c"
  shows "count_list (calls (place_window r exe hwnd w)) c = count_list (calls w) c"
proof -
  obtain snapped w1 where a: "apply_snap_layout hwnd (wi_snap_type r) w = (snapped, w1)"
    by (cases "apply_snap_layout hwnd (wi_snap_type r) w") auto
  have c1: "count_list (calls w1) c = count_list (calls w) c"
    using apply_snap_layout_count [OF assms, of hwnd "wi_snap_type r" w] a by simp
  show ?thesis
    using a c1 position_window_count [OF assms]
    by (simp add: place_window_def Let_def RESTORE_BROWSER_TABS_def)
qed

lemma launch_program_count:
  assumes "launch_or_poll c"
  shows "count_list (calls (snd (launch_program exe w))) c
           = count_list (calls w) c + (if fst (launch_program exe w) \<noteq> None \<and> c = Popen exe then 1 else 0)"
  using assms
  by (cases c) (auto simp: launch_program_def os_Popen_def split: option.splits)

lemma poll_for_window_count:
  assumes "launch_or_poll c"
  shows "count_list (calls (snd (poll_for_window n hwnd e t w))) c
           \<le> count_list (calls w) c + (if c = Sleep 1000 then n else 0)"
proof -
  obtain cs where cs: "calls (snd (poll_for_window n hwnd e t w)) = calls w @ cs"
    and s: "set cs \<subseteq> {Sleep 1000, EnumWindows}" and k: "count_list cs (Sleep 1000) \<le> n"
    using poll_for_window_calls [of n hwnd e t w] by blast
  show ?thesis
  proof (cases "c = Sleep 1000")
    case True
    with cs k show ?thesis by simp
  next
    case False
    with assms s have "c \<notin> set cs" by (cases c) auto
    then have "count_list cs c = 0" by (simp add: count_list_0_iff)
    with cs False show ?thesis by simp
  qed
qed

section \<open>Find, or launch and poll\<close>

lemma restore_find_or_launch_polls:
  "count_list (calls (snd (snd (restore_find_or_launch r exe t L w)))) (Sleep 1000)
     \<le> count_list (calls w) (Sleep 1000) + 10"
proof -
  let ?c = "Sleep 1000"
  have lp: "launch_or_poll ?c" by simp
  obtain res0 w1 where f: "find_or_choose exe t w = (res0, w1)"
    by (cases "find_or_choose exe t w") auto
  have c1: "count_list (calls w1) ?c = count_list (calls w) ?c"
    using find_or_choose_count [OF lp, of exe t w] f by simp
  obtain pid w2 where l: "launch_program exe w1 = (pid, w2)"
    by (cases "launch_program exe w1") auto
  have c2: "count_list (calls w2) ?c = count_list (calls w) ?c"
    using launch_program_count [OF lp, of exe w1] l c1 by simp
  obtain res3 w3 where p: "poll_for_window 10 (case res0 of Inr h \<Rightarrow> h | Inl _ \<Rightarrow> None) exe t w2 = (res3, w3)"
    by (cases "poll_for_window 10 (case res0 of Inr h \<Rightarrow> h | Inl _ \<Rightarrow> None) exe t w2") auto
  have c3: "count_list (calls w3) ?c \<le> count_list (calls w) ?c + 10"
    using poll_for_window_count [OF lp, of 10 "(case res0 of Inr h \<Rightarrow> h | Inl _ \<Rightarrow> None)" exe t w2] p c2 by simp
  show ?thesis
    using f l p c1 c2 c3 place_window_count [OF lp]
    by (auto simp: restore_find_or_launch_def split: sum.splits option.splits)
qed

lemma restore_find_or_launch_other:
  assumes "launch_or_poll c" and "c \<noteq> Sleep 1000" and "c \<noteq> Popen exe"
  shows "count_list (calls (snd (snd (restore_find_or_launch r exe t L w)))) c = count_list (calls w) c"
proof -
  obtain res0 w1 where f: "find_or_choose exe t w = (res0, w1)"
    by (cases "find_or_choose exe t w") auto
  have c1: "count_list (calls w1) c = count_list (calls w) c"
    using find_or_choose_count [OF assms(1), of exe t w] f by simp
  obtain pid w2 where l: "launch_program exe w1 = (pid, w2)"
    by (cases "launch_program exe w1") auto
  have c2: "count_list (calls w2) c = count_list (calls w) c"
    using launch_program_count [OF assms(1), of exe w1] l c1 assms(3) by simp
  obtain res3 w3 where p: "poll_for_window 10 (case res0 of Inr h \<Rightarrow> h | Inl _ \<Rightarrow> None) exe t w2 = (res3, w3)"
    by (cases "poll_for_window 10 (case res0 of Inr h \<Rightarrow> h | Inl _ \<Rightarrow> None) exe t w2") auto
  have "count_list (calls w3) c \<le> count_list (calls w2) c"
    using poll_for_window_count [OF assms(1), of 10 "(case res0 of Inr h \<Rightarrow> h | Inl _ \<Rightarrow> None)" exe t w2] p assms(2) by simp
  moreover have "count_list (calls w2) c \<le> count_list (calls w3) c"
  proof -
    obtain cs where "calls (snd (poll_for_window 10 (case res0 of Inr h \<Rightarrow> h | Inl _ \<Rightarrow> None) exe t w2)) = calls w2 @ cs"
      using poll_for_window_calls [of 10 "(case res0 of Inr h \<Rightarrow> h | Inl _ \<Rightarrow> None)" exe t w2] by blast
    with p show ?thesis by simp
  qed
  ultimately have c3: "count_list (calls w3) c = count_list (calls w) c"
    using c2 by simp
  show ?thesis
    using f l p c1 c2 c3 place_window_count [OF assms(1)]
    by (auto simp: restore_find_or_launch_def split: sum.splits option.splits)
qed

lemma restore_find_or_launch_launched:
  "fst (snd (restore_find_or_launch r exe t L w)) = L"
  by (auto simp: restore_find_or_launch_def split: sum.splits option.splits prod.splits)

lemma launch_program_starts:
  assumes "starts exe w"
  shows "\<exists>lo. map_of (programs w) exe = Some lo \<and> lo_pid lo \<noteq> 0 \<and>
          launch_program exe w =
            (Some (lo_pid lo),
             sleep 2000 (record_call (Popen exe)
               (w\<lparr>pending := pending w @ map (\<lambda>p. (clock w + fst p, snd p)) (lo_windows lo)\<rparr>)))"
  using assms
  by (auto simp: starts_def launch_program_def os_Popen_def split: option.splits)

lemma restore_find_or_launch_never:
  assumes "never_appears exe w" and "starts exe w"
  shows "fst (restore_find_or_launch r exe t L w) = Inr False \<and>
         calls (snd (snd (restore_find_or_launch r exe t L w)))
           = calls w @ [EnumWindows, EnumWindows, Popen exe, Sleep 2000]
               @ concat (replicate 10 [Sleep 1000, EnumWindows, EnumWindows])"
proof -
  let ?P = "is_candidate (exe_name_of exe)"
  let ?w1 = "record_call EnumWindows (record_call EnumWindows w)"
  have nw: "\<not> list_ex ?P (windows w)" and np: "\<not> list_ex ?P (map snd (pending w))"
    using assms(1) by (auto simp: never_appears_def list_ex_iff)
  have f: "find_or_choose exe t w = (Inr None, ?w1)"
    using nw by (rule find_or_choose_none)
  have st: "starts exe ?w1" using assms(2) by (simp add: starts_def)
  obtain lo where lo: "map_of (programs w) exe = Some lo" and pid: "lo_pid lo \<noteq> 0"
    and l: "launch_program exe ?w1 =
            (Some (lo_pid lo),
             sleep 2000 (record_call (Popen exe)
               (?w1\<lparr>pending := pending ?w1 @ map (\<lambda>p. (clock ?w1 + fst p, snd p)) (lo_windows lo)\<rparr>)))"
    using launch_program_starts [OF st] by auto
  let ?w2 = "sleep 2000 (record_call (Popen exe)
               (?w1\<lparr>pending := pending ?w1 @ map (\<lambda>p. (clock ?w1 + fst p, snd p)) (lo_windows lo)\<rparr>))"
  have nl: "\<not> list_ex ?P (map snd (lo_windows lo))"
    using assms(1) lo by (auto simp: never_appears_def list_ex_iff)
  have "\<not> list_ex ?P (windows (record_call (Popen exe)
               (?w1\<lparr>pending := pending ?w1 @ map (\<lambda>p. (clock ?w1 + fst p, snd p)) (lo_windows lo)\<rparr>))
          @ map snd (pending (record_call (Popen exe)
               (?w1\<lparr>pending := pending ?w1 @ map (\<lambda>p. (clock ?w1 + fst p, snd p)) (lo_windows lo)\<rparr>))))"
    using nw np nl by (auto simp: list_ex_iff)
  then have n2: "\<not> list_ex ?P (windows ?w2 @ map snd (pending ?w2))"
    by (rule sleep_no_candidate)
  have hn: "handle_of None = None" by (simp add: handle_of_def)
  obtain hwnd' w3 where p: "poll_for_window 10 None exe t ?w2 = (Inr hwnd', w3)"
    and h': "handle_of hwnd' = None"
    and c3: "calls w3 = calls ?w2 @ concat (replicate 10 [Sleep 1000, EnumWindows, EnumWindows])"
    using poll_for_window_none [OF n2 hn, of 10 t] by blast
  have hp: "handle_of (Some (lo_pid lo)) = Some (lo_pid lo)"
    using pid by (simp add: handle_of_def)
  have r: "restore_find_or_launch r exe t L w = (Inr False, L, w3)"
    using f l p h' hn hp by (simp add: restore_find_or_launch_def)
  have "calls ?w2 = calls w @ [EnumWindows, EnumWindows, Popen exe, Sleep 2000]"
    by simp
  with r c3 show ?thesis by simp
qed

lemma restore_window_regular:
  assumes "get_or (wi_executable r) (JStr []) = JStr exe"
    and "exe_name_of exe \<notin> set SESSION_MANAGED_APPS"
    and "get_or (wi_state r) ''normal'' \<noteq> ''minimized''"
  shows "restore_window r launched w =
           restore_find_or_launch r exe (get_or (wi_title r) (JStr [])) (get_or launched {}) w"
  using assms by (simp add: restore_window_def Let_def)

text \<open>
  C5. Restoring a record of an executable that is not session-managed sleeps for one
  second at most 10 times. When no window of the executable is open or ever opens
  and the launch succeeds, the record fails (\<open>False\<close>) after the launch and exactly
  10 rounds, each a one-second sleep followed by the two enumerations of the search.
\<close>

theorem poll_bound:
  assumes "get_or (wi_executable r) (JStr []) = JStr exe"
    and "exe_name_of exe \<notin> set SESSION_MANAGED_APPS"
    and "get_or (wi_state r) ''normal'' \<noteq> ''minimized''"
  shows "count_list (calls (snd (snd (restore_window r launched w)))) (Sleep 1000)
           \<le> count_list (calls w) (Sleep 1000) + 10 \<and>
         (never_appears exe w \<and> starts exe w \<longrightarrow>
            fst (restore_window r launched w) = Inr False \<and>
            calls (snd (snd (restore_window r launched w)))
              = calls w @ [EnumWindows, EnumWindows, Popen exe, Sleep 2000]
                  @ concat (replicate 10 [Sleep 1000, EnumWindows, EnumWindows]))"
  using restore_window_regular [OF assms, of launched w]
    restore_find_or_launch_polls [of r exe "get_or (wi_title r) (JStr [])" "get_or launched {}" w]
    restore_find_or_launch_never [of exe w r "get_or (wi_title r) (JStr [])" "get_or launched {}"]
  by simp

theorem poll_bound_witness:
  "get_or (wi_executable (mk_record ''slow.exe'' ''Slow'' (0, 0, 640, 480) ''normal'')) (JStr [])
     = JStr (''C:'' @ [CHR 0x5C] @ ''slow.exe'') \<and>
   exe_name_of (''C:'' @ [CHR 0x5C] @ ''slow.exe'') \<notin> set SESSION_MANAGED_APPS \<and>
   get_or (wi_state (mk_record ''slow.exe'' ''Slow'' (0, 0, 640, 480) ''normal'')) ''normal'' \<noteq> ''minimized'' \<and>
   never_appears (''C:'' @ [CHR 0x5C] @ ''slow.exe'') desk_slow \<and>
   starts (''C:'' @ [CHR 0x5C] @ ''slow.exe'') desk_slow \<and>
   fst (restore_window (mk_record ''slow.exe'' ''Slow'' (0, 0, 640, 480) ''normal'') (Some {}) desk_slow)
     = Inr False \<and>
   count_list (calls (snd (snd (restore_window (mk_record ''slow.exe'' ''Slow'' (0, 0, 640, 480) ''normal'')
                                  (Some {}) desk_slow)))) (Sleep 1000) = 10"
proof -
  let ?r = "mk_record ''slow.exe'' ''Slow'' (0, 0, 640, 480) ''normal''"
  let ?exe = "''C:'' @ [CHR 0x5C] @ ''slow.exe''"
  have h1: "get_or (wi_executable ?r) (JStr []) = JStr ?exe"
    by (simp add: mk_record_def get_or_def)
  have h2: "exe_name_of ?exe \<notin> set SESSION_MANAGED_APPS"
    by code_simp
  have h3: "get_or (wi_state ?r) ''normal'' \<noteq> ''minimized''"
    by (simp add: mk_record_def get_or_def)
  have h4: "never_appears ?exe desk_slow"
    by code_simp
  have h5: "starts ?exe desk_slow"
    by code_simp
  have e: "calls desk_slow = []"
    by (simp add: desk_slow_def)
  have n: "concat (replicate 10 [Sleep 1000, EnumWindows, EnumWindows])
             = concat (replicate (Suc (Suc (Suc (Suc (Suc (Suc (Suc (Suc (Suc (Suc 0))))))))))
                 [Sleep 1000, EnumWindows, EnumWindows])"
    by (simp add: eval_nat_numeral)
  show ?thesis
    using h1 h2 h3 h4 h5 poll_bound [OF h1 h2 h3, of "Some {}" desk_slow]
    by (simp add: e n)
qed

section \<open>The table of programs is not touched\<close>

lemma find_or_choose_programs:
  "programs (snd (find_or_choose e t w)) = programs w"
  using find_or_choose_world [of e t w] by auto

lemma launch_program_programs:
  "programs (snd (launch_program exe w)) = programs w"
  by (auto simp: launch_program_def os_Popen_def split: option.splits)

lemma poll_for_window_programs:
  "programs (snd (poll_for_window n hwnd e t w)) = programs w"
proof (induction n arbitrary: hwnd w)
  case 0
  show ?case by simp
next
  case (Suc n)
  obtain res w1 where f: "find_or_choose e t (sleep 1000 w) = (res, w1)"
    by (cases "find_or_choose e t (sleep 1000 w)") auto
  have p1: "programs w1 = programs w"
    using find_or_choose_programs [of e t "sleep 1000 w"] f by simp
  show ?case
    using f p1 Suc.IH by (auto split: sum.splits option.splits)
qed

lemma position_window_programs:
  "programs (position_window hwnd x y width height state monitor activate w) = programs w"
proof (cases "keep_visible (monitors w) x y width height monitor")
  case None
  then show ?thesis by (simp add: position_window_def)
next
  case (Some p)
  obtain a b cw ch where p: "p = (a, b, cw, ch)" by (cases p) auto
  show ?thesis
  proof (cases "os_ShowWindow hwnd SW_RESTORE w")
    case None
    with Some p show ?thesis by (simp add: position_window_def)
  next
    case sw: (Some w1)
    define w2 where "w2 = (if state = ''minimized'' then sleep 500 w1 else w1)"
    define flags where "flags = (if \<not> activate then SWP_NOZORDER OR SWP_NOACTIVATE else SWP_NOZORDER)"
    have c2: "programs w2 = programs w"
      using os_ShowWindow_Some(5) [OF sw] by (simp add: w2_def)
    show ?thesis
    proof (cases "os_SetWindowPos hwnd a b cw ch flags w2")
      case None
      with Some p sw c2 show ?thesis
        by (simp add: position_window_def Let_def w2_def [symmetric] flags_def [symmetric])
    next
      case sp: (Some w3)
      have c3: "programs w3 = programs w"
        using os_SetWindowPos_Some(4) [OF sp] c2 by simp
      have "programs (position_window hwnd x y width height state monitor activate w) = programs w3"
        using Some p sw sp
        by (auto simp: position_window_def Let_def w2_def [symmetric] flags_def [symmetric]
              os_ShowWindow_Some(5) os_SetForegroundWindow_Some(4)
              split: option.splits)
      with c3 show ?thesis by simp
    qed
  qed
qed

lemma apply_snap_layout_programs:
  "programs (snd (apply_snap_layout hwnd snap_type w)) = programs w"
  by (auto simp: apply_snap_layout_def os_ShowWindow_Some(5) os_SetWindowPos_Some(4)
      split: option.splits prod.splits)

lemma place_window_programs:
  "programs (place_window r exe hwnd w) = programs w"
proof -
  obtain snapped w1 where a: "apply_snap_layout hwnd (wi_snap_type r) w = (snapped, w1)"
    by (cases "apply_snap_layout hwnd (wi_snap_type r) w") auto
  have c1: "programs w1 = programs w"
    using apply_snap_layout_programs [of hwnd "wi_snap_type r" w] a by simp
  show ?thesis
    using a c1 position_window_programs
    by (simp add: place_window_def Let_def RESTORE_BROWSER_TABS_def)
qed

lemma restore_find_or_launch_programs:
  "programs (snd (snd (restore_find_or_launch r exe t L w))) = programs w"
proof -
  obtain res0 w1 where f: "find_or_choose exe t w = (res0, w1)"
    by (cases "find_or_choose exe t w") auto
  have c1: "programs w1 = programs w"
    using find_or_choose_programs [of exe t w] f by simp
  obtain pid w2 where l: "launch_program exe w1 = (pid, w2)"
    by (cases "launch_program exe w1") auto
  have c2: "programs w2 = programs w"
    using launch_program_programs [of exe w1] l c1 by simp
  obtain res3 w3 where p: "poll_for_window 10 (case res0 of Inr h \<Rightarrow> h | Inl _ \<Rightarrow> None) exe t w2 = (res3, w3)"
    by (cases "poll_for_window 10 (case res0 of Inr h \<Rightarrow> h | Inl _ \<Rightarrow> None) exe t w2") auto
  have c3: "programs w3 = programs w"
    using poll_for_window_programs [of 10 "(case res0 of Inr h \<Rightarrow> h | Inl _ \<Rightarrow> None)" exe t w2] p c2 by simp
  show ?thesis
    using f l p c1 c2 c3 place_window_programs
    by (auto simp: restore_find_or_launch_def split: sum.splits option.splits)
qed

section \<open>Session-managed applications are launched once\<close>

lemma launch_program_pid:
  assumes "pids_true w" and "launch_program exe w = (Some pid, w2)"
  shows "handle_of (Some pid) = Some pid"
proof -
  from assms(2) obtain lo where lo: "map_of (programs w) exe = Some lo" and p: "pid = lo_pid lo"
    by (auto simp: launch_program_def os_Popen_def split: option.splits)
  from lo have "(exe, lo) \<in> set (programs w)" by (rule map_of_SomeD)
  with assms(1) have "lo_pid lo \<noteq> 0" by (auto simp: pids_true_def list_all_iff)
  with p show ?thesis by (simp add: handle_of_def)
qed

lemma restore_session_managed_step:
  assumes "pids_true w" and "restore_session_managed exe t L w = (res, L1, w1)"
  shows "programs w1 = programs w"
    and "L1 = L \<or> (exe \<notin> L \<and> L1 = insert exe L)"
    and "launch_or_poll c \<Longrightarrow> c \<noteq> Popen exe \<Longrightarrow> count_list (calls w1) c = count_list (calls w) c"
    and "count_list (calls w1) (Popen exe) + (if exe \<in> L then 1 else 0)
           = count_list (calls w) (Popen exe) + (if exe \<in> L1 then 1 else 0)"
proof -
  obtain res0 v1 where f: "find_or_choose exe t w = (res0, v1)"
    by (cases "find_or_choose exe t w") auto
  have p1: "programs v1 = programs w"
    using find_or_choose_programs [of exe t w] f by simp
  have k1: "\<And>c. launch_or_poll c \<Longrightarrow> count_list (calls v1) c = count_list (calls w) c"
    using find_or_choose_count [of _ exe t w] f by simp
  have pt: "pids_true v1" using assms(1) p1 by (simp add: pids_true_def)
  have goal: "programs w1 = programs w \<and> (L1 = L \<or> (exe \<notin> L \<and> L1 = insert exe L)) \<and>
     (launch_or_poll c \<longrightarrow> c \<noteq> Popen exe \<longrightarrow> count_list (calls w1) c = count_list (calls w) c) \<and>
     count_list (calls w1) (Popen exe) + (if exe \<in> L then 1 else 0)
           = count_list (calls w) (Popen exe) + (if exe \<in> L1 then 1 else 0)"
  proof (cases res0)
    case (Inl ex)
    with assms(2) f p1 k1 show ?thesis by (auto simp: restore_session_managed_def)
  next
    case (Inr hwnd)
    show ?thesis
    proof (cases "handle_of hwnd")
      case (Some h)
      define v3 where "v3 = (case os_ShowWindow h SW_RESTORE v1 of
                   None \<Rightarrow> v1
                 | Some w2 \<Rightarrow> (case os_SetForegroundWindow h w2 of None \<Rightarrow> w2 | Some w3 \<Rightarrow> w3))"
      have r: "res = Inr True \<and> L1 = L \<and> w1 = v3"
        using assms(2) f Inr Some by (simp add: restore_session_managed_def v3_def)
      have p3: "programs v3 = programs v1"
        by (auto simp: v3_def os_ShowWindow_Some(5) os_SetForegroundWindow_Some(4) split: option.splits)
      have k3: "\<And>c. launch_or_poll c \<Longrightarrow> count_list (calls v3) c = count_list (calls v1) c"
        by (auto simp: v3_def os_ShowWindow_count os_SetForegroundWindow_count split: option.splits)
      show ?thesis using r p1 p3 k1 k3 by simp
    next
      case None
      show ?thesis
      proof (cases "exe \<in> L")
        case True
        with assms(2) f Inr None p1 k1 show ?thesis
          by (auto simp: restore_session_managed_def)
      next
        case False
        obtain pid v2 where l: "launch_program exe v1 = (pid, v2)"
          by (cases "launch_program exe v1") auto
        have p2: "programs v2 = programs w"
          using launch_program_programs [of exe v1] l p1 by simp
        have k2: "\<And>c. launch_or_poll c \<Longrightarrow> count_list (calls v2) c
                   = count_list (calls w) c + (if pid \<noteq> None \<and> c = Popen exe then 1 else 0)"
          using launch_program_count [of _ exe v1] l k1 by simp
        show ?thesis
        proof (cases pid)
          case None': None
          have "L1 = L \<and> w1 = v2"
            using assms(2) f Inr None False l None'
            by (simp add: restore_session_managed_def handle_of_def)
          with p2 k2 None' show ?thesis by simp
        next
          case (Some k)
          have hk: "handle_of pid = Some k"
            using launch_program_pid [OF pt] l Some by simp
          have "L1 = insert exe L \<and> w1 = v2"
            using assms(2) f Inr None False l hk
            by (simp add: restore_session_managed_def)
          with p2 k2 Some False show ?thesis by simp
        qed
      qed
    qed
  qed
  show "programs w1 = programs w" using goal by simp
  show "L1 = L \<or> (exe \<notin> L \<and> L1 = insert exe L)" using goal by simp
  show "launch_or_poll c \<Longrightarrow> c \<noteq> Popen exe \<Longrightarrow> count_list (calls w1) c = count_list (calls w) c"
    using goal by simp
  show "count_list (calls w1) (Popen exe) + (if exe \<in> L then 1 else 0)
           = count_list (calls w) (Popen exe) + (if exe \<in> L1 then 1 else 0)"
    using goal by simp
qed

lemma restore_window_step:
  assumes "pids_true w" and "restore_window r (Some L) w = (res, L1, w1)"
    and "exe_name_of e \<in> set SESSION_MANAGED_APPS"
  shows "programs w1 = programs w \<and>
         count_list (calls w1) (Popen e) + (if e \<in> L then 1 else 0)
           = count_list (calls w) (Popen e) + (if e \<in> L1 then 1 else 0)"
proof (cases "get_or (wi_executable r) (JStr [])")
  case (JStr exe)
  show ?thesis
  proof (cases "get_or (wi_state r) ''normal'' = ''minimized''")
    case True
    with assms(2) JStr show ?thesis by (auto simp: restore_window_def Let_def get_or_def)
  next
    case nm: False
    show ?thesis
    proof (cases "exe_name_of exe \<in> set SESSION_MANAGED_APPS")
      case True
      have rs: "restore_session_managed exe (get_or (wi_title r) (JStr [])) L w = (res, L1, w1)"
        using assms(2) JStr nm True
        by (simp add: restore_window_def Let_def RESTORE_SESSION_MANAGED_APPS_def get_or_def)
      note st = restore_session_managed_step [OF assms(1) rs]
      show ?thesis
      proof (cases "e = exe")
        case True
        with st(1) st(4) show ?thesis by simp
      next
        case False
        then have "count_list (calls w1) (Popen e) = count_list (calls w) (Popen e)"
          using st(3) [of "Popen e"] by simp
        moreover have "(e \<in> L1) = (e \<in> L)" using st(2) False by auto
        ultimately show ?thesis using st(1) by simp
      qed
    next
      case False
      have rf: "restore_window r (Some L) w
                  = restore_find_or_launch r exe (get_or (wi_title r) (JStr [])) (get_or (Some L) {}) w"
        by (rule restore_window_regular [OF JStr False nm])
      have ne: "e \<noteq> exe" using False assms(3) by auto
      have rfl: "restore_find_or_launch r exe (get_or (wi_title r) (JStr [])) (get_or (Some L) {}) w
                  = (res, L1, w1)"
        using rf assms(2) by simp
      have "count_list (calls w1) (Popen e) = count_list (calls w) (Popen e)"
        using restore_find_or_launch_other [of "Popen e" exe r "get_or (wi_title r) (JStr [])" "get_or (Some L) {}" w]
          rfl ne by simp
      moreover have "L1 = L"
        using restore_find_or_launch_launched [of r exe "get_or (wi_title r) (JStr [])" "get_or (Some L) {}" w]
          rfl by (simp add: get_or_def)
      moreover have "programs w1 = programs w"
        using restore_find_or_launch_programs [of r exe "get_or (wi_title r) (JStr [])" "get_or (Some L) {}" w]
          rfl by simp
      ultimately show ?thesis by simp
    qed
  qed
qed (use assms(2) in \<open>auto simp: restore_window_def Let_def get_or_def\<close>)

lemma restore_loop_launches:
  assumes "pids_true w" and "restore_loop wins n L w = (n', L', w')"
    and "exe_name_of e \<in> set SESSION_MANAGED_APPS"
  shows "count_list (calls w') (Popen e) + (if e \<in> L then 1 else 0)
           = count_list (calls w) (Popen e) + (if e \<in> L' then 1 else 0)"
  using assms(1,2)
proof (induction wins arbitrary: n L w)
  case Nil
  then show ?case by simp
next
  case (Cons r rs)
  obtain res L1 w1 where rw: "restore_window r (Some L) w = (res, L1, w1)"
    by (cases "restore_window r (Some L) w") auto
  have st: "programs w1 = programs w \<and>
         count_list (calls w1) (Popen e) + (if e \<in> L then 1 else 0)
           = count_list (calls w) (Popen e) + (if e \<in> L1 then 1 else 0)"
    using restore_window_step [OF Cons.prems(1) rw assms(3)] .
  then have pt: "pids_true w1" using Cons.prems(1) by (simp add: pids_true_def)
  obtain m where rl: "restore_loop rs m L1 w1 = (n', L', w')"
    using Cons.prems(2) rw by (cases res; cases "projr res") (auto split: if_splits)
  have "count_list (calls w') (Popen e) + (if e \<in> L1 then 1 else 0)
           = count_list (calls w1) (Popen e) + (if e \<in> L' then 1 else 0)"
    using Cons.IH [OF pt rl] .
  with st show ?case by (simp split: if_splits)
qed

lemma restore_session_managed_again:
  assumes "exe \<in> L" and "fst (find_or_choose exe t v) = Inr hwnd" and "handle_of hwnd = None"
  shows "restore_session_managed exe t L v = (Inr True, L, snd (find_or_choose exe t v))"
  using assms
  by (cases "find_or_choose exe t v") (simp add: restore_session_managed_def)

text \<open>
  C9. On a desktop whose process ids are true, a run of \<open>restore_windows\<close> starts a
  session-managed executable path at most once. A record of a session-managed
  executable that is already in the set of launched paths, and for which no window is
  found, returns \<open>True\<close> after the enumeration alone: nothing is launched.
\<close>

theorem session_app_launched_once:
  assumes "pids_true w" and "exe_name_of e \<in> set SESSION_MANAGED_APPS"
  shows "count_list (calls (snd (restore_windows wins w))) (Popen e)
           \<le> count_list (calls w) (Popen e) + 1 \<and>
         (e \<in> L \<and> get_or (wi_executable r) (JStr []) = JStr e \<and>
          get_or (wi_state r) ''normal'' \<noteq> ''minimized'' \<and>
          fst (find_or_choose e (get_or (wi_title r) (JStr [])) v) = Inr hwnd \<and>
          handle_of hwnd = None \<longrightarrow>
          restore_window r (Some L) v
            = (Inr True, L, snd (find_or_choose e (get_or (wi_title r) (JStr [])) v)))"
proof -
  obtain n' L' w' where rl: "restore_loop wins 0 {} w = (n', L', w')"
    by (cases "restore_loop wins 0 {} w") auto
  have "count_list (calls w') (Popen e) + (if e \<in> {} then 1 else 0)
          = count_list (calls w) (Popen e) + (if e \<in> L' then 1 else 0)"
    using restore_loop_launches [OF assms(1) rl assms(2)] .
  then have a: "count_list (calls (snd (restore_windows wins w))) (Popen e)
           \<le> count_list (calls w) (Popen e) + 1"
    using rl by (simp add: restore_windows_def)
  have b: "restore_window r (Some L) v
            = (Inr True, L, snd (find_or_choose e (get_or (wi_title r) (JStr [])) v))"
    if "e \<in> L" and "get_or (wi_executable r) (JStr []) = JStr e"
      and "get_or (wi_state r) ''normal'' \<noteq> ''minimized''"
      and "fst (find_or_choose e (get_or (wi_title r) (JStr [])) v) = Inr hwnd"
      and "handle_of hwnd = None"
    using that assms(2) restore_session_managed_again [OF that(1,4,5)]
    by (simp add: restore_window_def Let_def RESTORE_SESSION_MANAGED_APPS_def get_or_def)
  show ?thesis using a b by blast
qed

theorem session_app_launched_once_witness:
  "pids_true desk_slow \<and>
   exe_name_of (''C:'' @ [CHR 0x5C] @ ''chrome.exe'') \<in> set SESSION_MANAGED_APPS \<and>
   record_results layout_chrome2 {} desk_slow = [Inr True, Inr True] \<and>
   count_list (calls (snd (restore_windows layout_chrome2 desk_slow)))
     (Popen (''C:'' @ [CHR 0x5C] @ ''chrome.exe'')) = 1 \<and>
   ''C:'' @ [CHR 0x5C] @ ''chrome.exe'' \<in> {''C:'' @ [CHR 0x5C] @ ''chrome.exe''} \<and>
   get_or (wi_executable (mk_record ''chrome.exe'' ''Calendar'' (800, 0, 800, 600) ''normal'')) (JStr [])
     = JStr (''C:'' @ [CHR 0x5C] @ ''chrome.exe'') \<and>
   get_or (wi_state (mk_record ''chrome.exe'' ''Calendar'' (800, 0, 800, 600) ''normal'')) ''normal''
     \<noteq> ''minimized'' \<and>
   fst (find_or_choose (''C:'' @ [CHR 0x5C] @ ''chrome.exe'')
          (get_or (wi_title (mk_record ''chrome.exe'' ''Calendar'' (800, 0, 800, 600) ''normal'')) (JStr []))
          (snd (snd (restore_window (hd layout_chrome2) (Some {}) desk_slow)))) = Inr None \<and>
   handle_of None = None \<and>
   fst (restore_window (mk_record ''chrome.exe'' ''Calendar'' (800, 0, 800, 600) ''normal'')
          (Some {''C:'' @ [CHR 0x5C] @ ''chrome.exe''})
          (snd (snd (restore_window (hd layout_chrome2) (Some {}) desk_slow)))) = Inr True"
proof -
  let ?e = "''C:'' @ [CHR 0x5C] @ ''chrome.exe''"
  let ?r = "mk_record ''chrome.exe'' ''Calendar'' (800, 0, 800, 600) ''normal''"
  let ?v = "snd (snd (restore_window (hd layout_chrome2) (Some {}) desk_slow))"
  have h1: "pids_true desk_slow" by code_simp
  have h2: "exe_name_of ?e \<in> set SESSION_MANAGED_APPS" by code_simp
  have e1: "record_results layout_chrome2 {} desk_slow = [Inr True, Inr True]" by code_simp
  have e2: "count_list (calls (snd (restore_windows layout_chrome2 desk_slow))) (Popen ?e) = 1"
    by code_simp
  have h3: "?e \<in> {?e}" by simp
  have h4: "get_or (wi_executable ?r) (JStr []) = JStr ?e"
    by (simp add: mk_record_def get_or_def)
  have h5: "get_or (wi_state ?r) ''normal'' \<noteq> ''minimized''"
    by (simp add: mk_record_def get_or_def)
  have h6: "fst (find_or_choose ?e (get_or (wi_title ?r) (JStr [])) ?v) = Inr None"
    by code_simp
  have h7: "handle_of None = None" by (simp add: handle_of_def)
  show ?thesis
    using h1 h2 e1 e2 h3 h4 h5 h6 h7
      session_app_launched_once [OF h1 h2, of layout_chrome2 "{?e}" ?r ?v None]
    by simp
qed

section \<open>A record that raises does not end the run\<close>




section \<open>The search returns what the matcher says\<close>
















end
